theory Spec2Isabelle
  imports Complex_Main
begin

section \<open>Errors\<close>

text \<open>
  The exceptions that the modelled code and its collaborators can raise. All of them are
  subclasses of Python's \<open>Exception\<close>, so the catch-all of \<open>loop_pipeline\<close> and the
  \<open>except Exception\<close> of \<open>save_data_postgres\<close> catch every one of them.
\<close>

datatype error =
    KeyError string
  | TypeError
  | ValueError
  | OverflowError
  | OSError
  | ConnectionError
  | JSONDecodeError
  | DatabaseError string

section \<open>Dates and times (the part of Python's datetime that main.py uses)\<close>

text \<open>
  A \<open>datetime\<close> carries its calendar date as the proleptic Gregorian ordinal
  (\<open>toordinal()\<close>: 0001-01-01 is day 1), the wall-clock fields and its zone. The code uses
  two zones only. All comparisons and differences in main.py are between values of the same
  zone object, where Python compares and subtracts the wall-clock fields and ignores the
  offset.
\<close>

datatype zone = UTC | Sao_Paulo

record datetime =
  ordinal :: nat
  hour :: nat
  minute :: nat
  second :: nat
  microsecond :: nat
  tzinfo :: zone

text \<open>\<open>datetime.max\<close> is 9999-12-31; its ordinal is the largest one a date can have.\<close>

definition MAXORDINAL :: nat where
  "MAXORDINAL = 3652059"

definition valid_datetime :: "datetime \<Rightarrow> bool" where
  "valid_datetime d \<longleftrightarrow>
     1 \<le> ordinal d \<and> ordinal d \<le> MAXORDINAL \<and>
     hour d < 24 \<and> minute d < 60 \<and> second d < 60 \<and> microsecond d < 1000000"

text \<open>The calendar of the standard library, used to write dates as year, month, day.\<close>

definition is_leap :: "nat \<Rightarrow> bool" where
  "is_leap y \<longleftrightarrow> y mod 4 = 0 \<and> (y mod 100 \<noteq> 0 \<or> y mod 400 = 0)"

definition days_before_year :: "nat \<Rightarrow> nat" where
  "days_before_year y = (y - 1) * 365 + (y - 1) div 4 - (y - 1) div 100 + (y - 1) div 400"

definition days_before_month :: "nat \<Rightarrow> nat \<Rightarrow> nat" where
  "days_before_month y m =
     [0, 0, 31, 59, 90, 120, 151, 181, 212, 243, 273, 304, 334] ! m
       + (if m > 2 \<and> is_leap y then 1 else 0)"

definition ymd2ord :: "nat \<Rightarrow> nat \<Rightarrow> nat \<Rightarrow> nat" where
  "ymd2ord y m d = days_before_year y + days_before_month y m + d"

text \<open>\<open>weekday()\<close>: Monday is 0, Saturday is 5, Sunday is 6.\<close>

definition weekday :: "datetime \<Rightarrow> nat" where
  "weekday d = (ordinal d + 6) mod 7"

text \<open>
  \<open>a < b\<close> and \<open>a <= b\<close> on two datetimes of one zone: the order of the tuples
  (date, hour, minute, second, microsecond).
\<close>

definition dt_less :: "datetime \<Rightarrow> datetime \<Rightarrow> bool" where
  "dt_less a b \<longleftrightarrow>
     ordinal a < ordinal b \<or> (ordinal a = ordinal b \<and>
      (hour a < hour b \<or> (hour a = hour b \<and>
       (minute a < minute b \<or> (minute a = minute b \<and>
        (second a < second b \<or> (second a = second b \<and>
          microsecond a < microsecond b)))))))"

definition dt_le :: "datetime \<Rightarrow> datetime \<Rightarrow> bool" where
  "dt_le a b \<longleftrightarrow>
     dt_less a b \<or>
     (ordinal a = ordinal b \<and> hour a = hour b \<and> minute a = minute b \<and>
      second a = second b \<and> microsecond a = microsecond b)"

text \<open>
  A \<open>timedelta\<close> is kept normalised by its constructor: any number of days, seconds in
  \<open>0..86399\<close>, microseconds in \<open>0..999999\<close>.
\<close>

record timedelta =
  days :: int
  seconds :: int
  microseconds :: int

definition mk_timedelta :: "int \<Rightarrow> int \<Rightarrow> int \<Rightarrow> timedelta" where
  "mk_timedelta d s us =
     (let s1 = s + us div 1000000;
          d1 = d + s1 div 86400
      in \<lparr>days = d1, seconds = s1 mod 86400, microseconds = us mod 1000000\<rparr>)"


definition seconds_of_day :: "datetime \<Rightarrow> int" where
  "seconds_of_day d = int (second d) + int (minute d) * 60 + int (hour d) * 3600"

text \<open>\<open>a - b\<close> on two datetimes of one zone.\<close>

definition dt_sub :: "datetime \<Rightarrow> datetime \<Rightarrow> timedelta" where
  "dt_sub a b =
     mk_timedelta (int (ordinal a) - int (ordinal b))
                  (seconds_of_day a - seconds_of_day b)
                  (int (microsecond a) - int (microsecond b))"

text \<open>
  \<open>d + t\<close>: the wall-clock fields move by \<open>t\<close>, the zone stays; a result outside
  years 1..9999 raises \<open>OverflowError\<close>.
\<close>

definition dt_add :: "datetime \<Rightarrow> timedelta \<Rightarrow> error + datetime" where
  "dt_add d t =
     (let delta = mk_timedelta (int (ordinal d) + days t)
                               (seconds_of_day d + seconds t)
                               (int (microsecond d) + microseconds t)
      in if 0 < days delta \<and> days delta \<le> int MAXORDINAL
         then Inr \<lparr>ordinal = nat (days delta),
                   hour = nat (seconds delta div 3600),
                   minute = nat ((seconds delta mod 3600) div 60),
                   second = nat (seconds delta mod 60),
                   microsecond = nat (microseconds delta),
                   tzinfo = tzinfo d\<rparr>
         else Inl OverflowError)"

section \<open>The operating window (main.py)\<close>

text \<open>
  Both functions read the clock once, as \<open>datetime.now(ZoneInfo("America/Sao_Paulo"))\<close>;
  the value read is the argument \<open>now\<close> here.
\<close>

definition is_within_allowed_time :: "datetime \<Rightarrow> bool" where
  "is_within_allowed_time now =
     (if weekday now \<ge> 5 then False
      else let start = now\<lparr>hour := 8, minute := 0, second := 0, microsecond := 0\<rparr>;
               end = now\<lparr>hour := 19, minute := 0, second := 0, microsecond := 0\<rparr>
           in dt_le start now \<and> dt_le now end)"

text \<open>
  The weekend loop of \<open>time_until_next_start\<close>:
  \<^verbatim>\<open>while next_start.weekday() >= 5: next_start = next_start + timedelta(days=1)\<close>.
  Its only exits are the weekday test and the \<open>OverflowError\<close> of the addition.
\<close>

function skip_weekend :: "datetime \<Rightarrow> error + datetime" where
  "skip_weekend next_start =
     (if weekday next_start \<ge> 5
      then (case dt_add next_start (mk_timedelta 1 0 0) of
              Inl e \<Rightarrow> Inl e
            | Inr next_start' \<Rightarrow> skip_weekend next_start')
      else Inr next_start)"
  by pat_completeness auto
termination
proof (relation "measure (\<lambda>d. MAXORDINAL - ordinal d)")
  show "wf (measure (\<lambda>d. MAXORDINAL - ordinal d))"
    by simp
next
  fix next_start :: datetime and x2 :: datetime
  assume a: "dt_add next_start (mk_timedelta 1 0 0) = Inr x2"
  define k where
    "k = (seconds_of_day next_start + int (microsecond next_start) div 1000000) div 86400"
  have "0 \<le> seconds_of_day next_start"
    by (simp add: seconds_of_day_def)
  then have k0: "0 \<le> k"
    unfolding k_def by (simp add: pos_imp_zdiv_nonneg_iff)
  have dd: "days (mk_timedelta (int (ordinal next_start) + 1) (seconds_of_day next_start)
                   (int (microsecond next_start)))
              = int (ordinal next_start) + 1 + k"
    by (simp add: mk_timedelta_def Let_def k_def)
  have od: "mk_timedelta 1 0 0 = \<lparr>days = 1, seconds = 0, microseconds = 0\<rparr>"
    by (simp add: mk_timedelta_def)
  from a have "0 < int (ordinal next_start) + 1 + k
                 \<and> int (ordinal next_start) + 1 + k \<le> int MAXORDINAL
                 \<and> ordinal x2 = nat (int (ordinal next_start) + 1 + k)"
    unfolding dt_add_def od Let_def
    by (simp add: dd split: if_splits) auto
  with k0 have "ordinal next_start < ordinal x2 \<and> ordinal x2 \<le> MAXORDINAL"
    by linarith
  then show "(x2, next_start) \<in> measure (\<lambda>d. MAXORDINAL - ordinal d)"
    by (simp add: diff_less_mono2)
qed

definition time_until_next_start :: "datetime \<Rightarrow> error + timedelta" where
  "time_until_next_start now =
     (let next_start = now\<lparr>hour := 8, minute := 0, second := 0, microsecond := 0\<rparr> in
      case (if dt_le next_start now
            then dt_add next_start (mk_timedelta 1 0 0)
            else Inr next_start) of
        Inl e \<Rightarrow> Inl e
      | Inr next_start1 \<Rightarrow>
          (case skip_weekend next_start1 of
             Inl e \<Rightarrow> Inl e
           | Inr next_start2 \<Rightarrow> Inr (dt_sub next_start2 now)))"

text \<open>
  The same loop with the weekday computation as a parameter and a count of the one-day
  advances it has made; \<open>skip_weekend\<close> is its result at \<open>weekday\<close>. It shows what
  the loop does when the test does not become false.
\<close>

function weekend_loop ::
  "(datetime \<Rightarrow> nat) \<Rightarrow> nat \<Rightarrow> datetime \<Rightarrow> nat \<times> (error + datetime)" where
  "weekend_loop wd n next_start =
     (if wd next_start \<ge> 5
      then (case dt_add next_start (mk_timedelta 1 0 0) of
              Inl e \<Rightarrow> (n, Inl e)
            | Inr next_start' \<Rightarrow> weekend_loop wd (n + 1) next_start')
      else (n, Inr next_start))"
  by pat_completeness auto
termination
proof (relation "measure (\<lambda>(wd, n, d). MAXORDINAL - ordinal d)")
  show "wf (measure (\<lambda>(wd :: datetime \<Rightarrow> nat, n :: nat, d). MAXORDINAL - ordinal d))"
    by simp
next
  fix wd :: "datetime \<Rightarrow> nat" and n :: nat and next_start :: datetime and x2 :: datetime
  assume a: "dt_add next_start (mk_timedelta 1 0 0) = Inr x2"
  define k where
    "k = (seconds_of_day next_start + int (microsecond next_start) div 1000000) div 86400"
  have "0 \<le> seconds_of_day next_start"
    by (simp add: seconds_of_day_def)
  then have k0: "0 \<le> k"
    unfolding k_def by (simp add: pos_imp_zdiv_nonneg_iff)
  have dd: "days (mk_timedelta (int (ordinal next_start) + 1) (seconds_of_day next_start)
                   (int (microsecond next_start)))
              = int (ordinal next_start) + 1 + k"
    by (simp add: mk_timedelta_def Let_def k_def)
  have od: "mk_timedelta 1 0 0 = \<lparr>days = 1, seconds = 0, microseconds = 0\<rparr>"
    by (simp add: mk_timedelta_def)
  from a have "0 < int (ordinal next_start) + 1 + k
                 \<and> int (ordinal next_start) + 1 + k \<le> int MAXORDINAL
                 \<and> ordinal x2 = nat (int (ordinal next_start) + 1 + k)"
    unfolding dt_add_def od Let_def
    by (simp add: dd split: if_splits) auto
  with k0 have "ordinal next_start < ordinal x2 \<and> ordinal x2 \<le> MAXORDINAL"
    by linarith
  then show "((wd, n + 1, x2), (wd, n, next_start))
               \<in> measure (\<lambda>(wd, n, d). MAXORDINAL - ordinal d)"
    by (simp add: diff_less_mono2)
qed

text \<open>A weekday computation that answers Saturday for every date.\<close>

definition always_saturday :: "datetime \<Rightarrow> nat" where
  "always_saturday d = 5"

text \<open>The time of day of a datetime, in microseconds since midnight.\<close>

definition time_of_day_us :: "datetime \<Rightarrow> nat" where
  "time_of_day_us d = ((hour d * 60 + minute d) * 60 + second d) * 1000000 + microsecond d"

definition at_8 :: "datetime \<Rightarrow> datetime" where
  "at_8 d = d\<lparr>hour := 8, minute := 0, second := 0, microsecond := 0\<rparr>"

definition at_19 :: "datetime \<Rightarrow> datetime" where
  "at_19 d = d\<lparr>hour := 19, minute := 0, second := 0, microsecond := 0\<rparr>"

section \<open>The clock and the zone\<close>

text \<open>
  The clock is an instant, counted in microseconds since 1970-01-01T00:00:00 UTC. The zone
  table of \<open>ZoneInfo("America/Sao_Paulo")\<close> lives outside the repository; it is the
  parameter \<open>zi\<close>, giving the zone's UTC offset in seconds at a UTC epoch second.
\<close>

type_synonym zoneinfo = "int \<Rightarrow> int"

definition EPOCH_ORDINAL :: int where
  "EPOCH_ORDINAL = 719163"

text \<open>
  The UTC datetime of an instant. The C library breaks the seconds down first and fails
  with \<open>OSError\<close> where the year does not fit its field; a year outside 1..9999 then
  raises \<open>ValueError\<close>.
\<close>

definition GMTIME_MIN :: int where
  "GMTIME_MIN = - 67768040609740800"

definition GMTIME_MAX :: int where
  "GMTIME_MAX = 67768036191676799"

definition utc_of_microseconds :: "int \<Rightarrow> error + datetime" where
  "utc_of_microseconds c =
     (let day = EPOCH_ORDINAL + c div 86400000000;
          sec = (c mod 86400000000) div 1000000
      in if c div 1000000 < GMTIME_MIN \<or> GMTIME_MAX < c div 1000000 then Inl OSError
         else if 1 \<le> day \<and> day \<le> int MAXORDINAL
         then Inr \<lparr>ordinal = nat day,
                   hour = nat (sec div 3600),
                   minute = nat ((sec mod 3600) div 60),
                   second = nat (sec mod 60),
                   microsecond = nat (c mod 1000000),
                   tzinfo = UTC\<rparr>
         else Inl ValueError)"

text \<open>
  \<open>datetime.fromtimestamp(n, tz=UTC)\<close> for an integer \<open>n\<close> of seconds; an \<open>n\<close> that
  does not fit the 64-bit \<open>time_t\<close> raises \<open>OverflowError\<close>.
\<close>

definition fromtimestamp :: "int \<Rightarrow> error + datetime" where
  "fromtimestamp n =
     (if n < - (2 ^ 63) \<or> 2 ^ 63 \<le> n then Inl OverflowError
      else utc_of_microseconds (n * 1000000))"

definition timestamp_of_utc :: "datetime \<Rightarrow> int" where
  "timestamp_of_utc d = (int (ordinal d) - EPOCH_ORDINAL) * 86400 + seconds_of_day d"

text \<open>
  \<open>d.astimezone(ZoneInfo("America/Sao_Paulo"))\<close> for a UTC datetime \<open>d\<close>: the zone's
  offset at that instant is added to the wall-clock fields.
\<close>

definition astimezone :: "zoneinfo \<Rightarrow> datetime \<Rightarrow> error + datetime" where
  "astimezone zi d =
     dt_add (d\<lparr>tzinfo := Sao_Paulo\<rparr>) (mk_timedelta 0 (zi (timestamp_of_utc d)) 0)"

definition datetime_now :: "zoneinfo \<Rightarrow> zone \<Rightarrow> int \<Rightarrow> error + datetime" where
  "datetime_now zi z c =
     (case utc_of_microseconds c of
        Inl e \<Rightarrow> Inl e
      | Inr u \<Rightarrow> (case z of UTC \<Rightarrow> Inr u | Sao_Paulo \<Rightarrow> astimezone zi u))"

section \<open>Documents (the values that \<open>response.json()\<close> returns)\<close>

datatype float_value = Finite rat | PosInf | NegInf | NaN

datatype json =
    JNull
  | JBool bool
  | JInt int
  | JFloat float_value
  | JStr string
  | JList "json list"
  | JDict "(string \<times> json) list"

text \<open>Python's truth value of a document, as \<open>if not data\<close> tests it. \<open>JNull\<close> is \<open>None\<close>.\<close>

fun truthy :: "json \<Rightarrow> bool" where
  "truthy JNull = False"
| "truthy (JBool b) = b"
| "truthy (JInt i) = (i \<noteq> 0)"
| "truthy (JFloat f) = (f \<noteq> Finite 0)"
| "truthy (JStr s) = (s \<noteq> [])"
| "truthy (JList xs) = (xs \<noteq> [])"
| "truthy (JDict kvs) = (kvs \<noteq> [])"

text \<open>\<open>d[k]\<close> with a string key: only a dict has one; every other value raises \<open>TypeError\<close>.\<close>

fun getitem :: "json \<Rightarrow> string \<Rightarrow> error + json" where
  "getitem (JDict kvs) k = (case map_of kvs k of None \<Rightarrow> Inl (KeyError k) | Some v \<Rightarrow> Inr v)"
| "getitem _ k = Inl TypeError"

text \<open>
  \<open>int(x)\<close>. A string is stripped of white space, may carry a sign, and is a run of decimal
  digits with single underscores between digits; more than 4300 digits are refused. A
  \<open>char\<close> is a code point below 256. Of these, \<open>int\<close> strips the six ASCII white-space
  characters and the two spaces U+0085 and U+00A0; it does not strip the separators 28 to
  31. Code points from 256 on (other spaces, other decimal digits) are not modelled.
\<close>

definition is_space :: "char \<Rightarrow> bool" where
  "is_space c \<longleftrightarrow> of_char c \<in> {9, 10, 11, 12, 13, 32, 133, 160 :: nat}"

definition is_digit :: "char \<Rightarrow> bool" where
  "is_digit c \<longleftrightarrow> 48 \<le> (of_char c :: nat) \<and> (of_char c :: nat) \<le> 57"

definition strip :: "string \<Rightarrow> string" where
  "strip s = rev (dropWhile is_space (rev (dropWhile is_space s)))"

fun digits_value :: "int \<Rightarrow> string \<Rightarrow> int option" where
  "digits_value acc [] = None"
| "digits_value acc [c] = (if is_digit c then Some (acc * 10 + (of_char c - 48)) else None)"
| "digits_value acc (c # c' # cs) =
     (if \<not> is_digit c then None
      else if c' = CHR ''_'' then digits_value (acc * 10 + (of_char c - 48)) cs
      else digits_value (acc * 10 + (of_char c - 48)) (c' # cs))"

definition int_of_string :: "string \<Rightarrow> error + int" where
  "int_of_string s =
     (let t = strip s;
          (sign, body) = (case t of
                            c # cs \<Rightarrow> if c = CHR ''-'' then (- 1, cs)
                                      else if c = CHR ''+'' then (1, cs) else (1, t)
                          | [] \<Rightarrow> (1, t))
      in if length (filter is_digit body) > 4300 then Inl ValueError
         else (case digits_value 0 body of
                 None \<Rightarrow> Inl ValueError
               | Some v \<Rightarrow> Inr (sign * v)))"

fun py_int :: "json \<Rightarrow> error + int" where
  "py_int (JInt i) = Inr i"
| "py_int (JBool b) = Inr (if b then 1 else 0)"
| "py_int (JFloat (Finite r)) = Inr (if 0 \<le> r then \<lfloor>r\<rfloor> else \<lceil>r\<rceil>)"
| "py_int (JFloat NaN) = Inl ValueError"
| "py_int (JFloat _) = Inl OverflowError"
| "py_int (JStr s) = int_of_string s"
| "py_int _ = Inl TypeError"

section \<open>Transform (pipeline/transform.py)\<close>

record quote =
  moeda_origem :: json
  moeda_destino :: json
  valor_de_compra :: json
  timestamp_moeda :: datetime
  timestamp_criacao :: datetime

text \<open>Sequencing of calls that may raise: the first exception ends the computation.\<close>

definition and_then :: "error + 'a \<Rightarrow> ('a \<Rightarrow> error + 'b) \<Rightarrow> error + 'b" where
  "and_then r f = (case r of Inl e \<Rightarrow> Inl e | Inr x \<Rightarrow> f x)"

text \<open>\<open>transform_data(data)\<close>; \<open>c\<close> is the clock when \<open>datetime.now(UTC)\<close> reads it.\<close>

definition transform_data :: "zoneinfo \<Rightarrow> int \<Rightarrow> json \<Rightarrow> error + quote" where
  "transform_data zi c data =
     and_then (and_then (getitem data ''USDBRL'') (\<lambda>p. getitem p ''code'')) (\<lambda>origem.
     and_then (and_then (getitem data ''USDBRL'') (\<lambda>p. getitem p ''codein'')) (\<lambda>destino.
     and_then (and_then (getitem data ''USDBRL'') (\<lambda>p. getitem p ''bid'')) (\<lambda>compra.
     and_then (and_then (getitem data ''USDBRL'') (\<lambda>p. getitem p ''timestamp'')) (\<lambda>ts.
     and_then (py_int ts) (\<lambda>n.
     and_then (fromtimestamp n) (\<lambda>utc.
     and_then (astimezone zi utc) (\<lambda>moeda.
     and_then (datetime_now zi UTC c) (\<lambda>now_utc.
     and_then (astimezone zi now_utc) (\<lambda>criacao.
     Inr \<lparr>moeda_origem = origem,
          moeda_destino = destino,
          valor_de_compra = compra,
          timestamp_moeda = moeda,
          timestamp_criacao = criacao\<rparr>)))))))))"

section \<open>The process state and what the process does to the outside\<close>

datatype level = INFO | ERROR

text \<open>The log lines of the code, one constructor for each message text.\<close>

datatype message =
    Sigterm_received
  | Api_error int string
  | Data_saved datetime
  | Save_error error
  | No_data_extracted
  | Pipeline_completed
  | Waiting_30_seconds
  | Unexpected_error error
  | Pipeline_finished
  | Outside_allowed_time int int int
  | Execution_ended

datatype stage = Extract | Transform | Load

text \<open>
  The trace lists, in order, the log lines, the calls of the three stages and the calls on
  the storage session.
\<close>

datatype event =
    Log level message
  | Call stage
  | Session_open nat
  | Session_add nat quote
  | Session_commit nat
  | Session_rollback nat
  | Session_close nat

text \<open>
  Only SIGTERM is modelled as a signal; the \<open>KeyboardInterrupt\<close> of the main block, which
  ends the loop by an exception and then sets the same flag, is not.
\<close>

text \<open>
  \<open>stop_event\<close> is the flag of the module-level \<open>threading.Event\<close>. \<open>signals\<close> holds
  the instants at which a SIGTERM will be delivered to the process. \<open>rows\<close> is the
  committed content of the table, \<open>pending\<close> what the open session has added and not yet
  committed, \<open>sessions\<close> the number of sessions created so far, \<open>runs\<close> the number of
  pipeline runs started so far.
\<close>

record world =
  stop_event :: bool
  clock :: int
  signals :: "int list"
  trace :: "event list"
  rows :: "quote list"
  pending :: "quote list"
  sessions :: nat
  runs :: nat

definition emit :: "event \<Rightarrow> world \<Rightarrow> world" where
  "emit e s = s\<lparr>trace := trace s @ [e]\<rparr>"

definition logger_info :: "message \<Rightarrow> world \<Rightarrow> world" where
  "logger_info m s = emit (Log INFO m) s"

definition logger_error :: "message \<Rightarrow> world \<Rightarrow> world" where
  "logger_error m s = emit (Log ERROR m) s"

text \<open>\<open>handle_sigterm\<close>: one log line, then \<open>stop_event.set()\<close>.\<close>

definition handle_sigterm :: "world \<Rightarrow> world" where
  "handle_sigterm s = (logger_info Sigterm_received s)\<lparr>stop_event := True\<rparr>"

text \<open>
  Time passes only inside a blocking call. When the clock moves, the handler runs once for
  each signal that has become due.
\<close>

definition deliver :: "world \<Rightarrow> world" where
  "deliver s =
     (fold (\<lambda>_. handle_sigterm) (filter (\<lambda>t. t \<le> clock s) (signals s)) s)
       \<lparr>signals := filter (\<lambda>t. \<not> t \<le> clock s) (signals s)\<rparr>"

definition advance :: "int \<Rightarrow> world \<Rightarrow> world" where
  "advance d s = deliver (s\<lparr>clock := clock s + d\<rparr>)"

fun earliest :: "int list \<Rightarrow> int option" where
  "earliest [] = None"
| "earliest (t # ts) = (case earliest ts of None \<Rightarrow> Some t | Some u \<Rightarrow> Some (min t u))"

text \<open>
  \<open>stop_event.wait(timeout)\<close>, \<open>timeout\<close> in seconds: it returns at once when the flag is
  set, at the instant of the first signal that sets the flag during the wait, and after
  \<open>timeout\<close> seconds otherwise.
\<close>

definition event_wait :: "int \<Rightarrow> world \<Rightarrow> world" where
  "event_wait timeout s =
     (if stop_event s then s
      else (case earliest (filter (\<lambda>t. t \<le> clock s + timeout * 1000000) (signals s)) of
              None \<Rightarrow> advance (timeout * 1000000) s
            | Some t \<Rightarrow> advance (max 0 (t - clock s)) s))"

text \<open>
  \<open>time.sleep(secs)\<close>: a signal handler that runs during the sleep does not end it; the
  sleep goes on for what remains of \<open>secs\<close>.
\<close>

definition time_sleep :: "int \<Rightarrow> world \<Rightarrow> world" where
  "time_sleep secs s = advance (secs * 1000000) s"

section \<open>Extract (pipeline/extract.py)\<close>

text \<open>
  What \<open>requests.get\<close> gives back: the status, the body text, and what \<open>response.json()\<close>
  makes of the body (a document, or the exception of the decoder).
\<close>

record response =
  status_code :: int
  body_text :: string
  body_json :: "error + json"

text \<open>
  The outside of one pipeline run: the outcome of the HTTP request (an exception of
  \<open>requests.get\<close>, or a response), the time the request takes in microseconds, and the
  exceptions, if any, that the session raises on \<open>add\<close>, \<open>commit\<close> and \<open>rollback\<close>.
\<close>

record run_env =
  http :: "error + response"
  latency :: int
  add_error :: "error option"
  commit_error :: "error option"
  rollback_error :: "error option"

text \<open>
  \<open>extract_data(logger)\<close>: the request to the fixed URL (with the token of the
  configuration), then the document of a 200 answer, or a log line and \<open>None\<close>.
\<close>

definition extract_data :: "run_env \<Rightarrow> world \<Rightarrow> (error + json) \<times> world" where
  "extract_data env s =
     (let s1 = advance (max 0 (latency env)) s in
      case http env of
        Inl e \<Rightarrow> (Inl e, s1)
      | Inr response \<Rightarrow>
          if status_code response = 200 then (body_json response, s1)
          else (Inr JNull,
                logger_error (Api_error (status_code response) (body_text response)) s1))"

section \<open>Load (pipeline/load.py)\<close>

text \<open>
  The \<open>try\<close> block of \<open>save_data_postgres\<close>: \<open>add\<close>, \<open>commit\<close>, the log line. It
  returns the exception that left it, if one did. A commit that raises leaves the table as
  it was.
\<close>

definition save_try :: "run_env \<Rightarrow> nat \<Rightarrow> quote \<Rightarrow> world \<Rightarrow> error option \<times> world" where
  "save_try env sid data s =
     (let s1 = emit (Session_add sid data) s in
      case add_error env of
        Some e \<Rightarrow> (Some e, s1)
      | None \<Rightarrow>
          (let s2 = s1\<lparr>pending := pending s1 @ [data]\<rparr>;
               s3 = emit (Session_commit sid) s2 in
           case commit_error env of
             Some e \<Rightarrow> (Some e, s3)
           | None \<Rightarrow>
               (None, logger_info (Data_saved (timestamp_criacao data))
                        (s3\<lparr>rows := rows s3 @ pending s3, pending := []\<rparr>))))"

definition session_rollback :: "run_env \<Rightarrow> nat \<Rightarrow> world \<Rightarrow> error option \<times> world" where
  "session_rollback env sid s =
     (let s1 = emit (Session_rollback sid) s in
      case rollback_error env of
        Some e \<Rightarrow> (Some e, s1)
      | None \<Rightarrow> (None, s1\<lparr>pending := []\<rparr>))"

definition session_close :: "nat \<Rightarrow> world \<Rightarrow> world" where
  "session_close sid s = (emit (Session_close sid) s)\<lparr>pending := []\<rparr>"

text \<open>
  \<open>Session()\<close> makes a new session, numbered by the count of sessions made before it,
  with nothing pending.
\<close>

definition save_data_postgres :: "run_env \<Rightarrow> quote \<Rightarrow> world \<Rightarrow> (error + unit) \<times> world" where
  "save_data_postgres env data s =
     (let sid = sessions s;
          s1 = emit (Session_open sid) (s\<lparr>sessions := sid + 1, pending := []\<rparr>) in
      case save_try env sid data s1 of
        (None, s2) \<Rightarrow> (Inr (), session_close sid s2)
      | (Some e, s2) \<Rightarrow>
          (case session_rollback env sid (logger_error (Save_error e) s2) of
             (None, s3) \<Rightarrow> (Inr (), session_close sid s3)
           | (Some e', s3) \<Rightarrow> (Inl e', session_close sid s3)))"

section \<open>One run and the loop (main.py)\<close>

text \<open>
  \<open>pipeline(Session, logger)\<close>. The \<open>logfire.span\<close> blocks around the three calls
  only record them and let every exception pass; they are left out. The function has no
  \<open>return\<close> with a value: what it gives its caller is \<open>None\<close> (here \<open>Inr ()\<close>) or
  an exception.
\<close>

definition pipeline :: "zoneinfo \<Rightarrow> run_env \<Rightarrow> world \<Rightarrow> (error + unit) \<times> world" where
  "pipeline zi env s =
     (case extract_data env (emit (Call Extract) s) of
        (Inl e, s1) \<Rightarrow> (Inl e, s1)
      | (Inr data, s1) \<Rightarrow>
          if \<not> truthy data then (Inr (), logger_error No_data_extracted s1)
          else (let s2 = emit (Call Transform) s1 in
                case transform_data zi (clock s2) data of
                  Inl e \<Rightarrow> (Inl e, s2)
                | Inr transformed_data \<Rightarrow>
                    (case save_data_postgres env transformed_data (emit (Call Load) s2) of
                       (Inl e, s3) \<Rightarrow> (Inl e, s3)
                     | (Inr _, s3) \<Rightarrow> (Inr (), logger_info Pipeline_completed s3))))"

text \<open>
  One turn of the \<open>while\<close> loop of \<open>loop_pipeline\<close>. \<open>envs\<close> gives the outside of the
  \<open>n\<close>-th run. An exception of the two clock functions is raised outside the \<open>try\<close> and
  leaves the loop; an exception of the run is caught, logged and followed by
  \<open>time.sleep(30)\<close>.
\<close>

definition loop_body :: "zoneinfo \<Rightarrow> (nat \<Rightarrow> run_env) \<Rightarrow> world \<Rightarrow> (error + unit) \<times> world" where
  "loop_body zi envs s =
     (case datetime_now zi Sao_Paulo (clock s) of
        Inl e \<Rightarrow> (Inl e, s)
      | Inr now \<Rightarrow>
          if is_within_allowed_time now then
            (case pipeline zi (envs (runs s)) (s\<lparr>runs := runs s + 1\<rparr>) of
               (Inr _, s1) \<Rightarrow>
                 (Inr (), logger_info Pipeline_finished
                            (event_wait 30 (logger_info Waiting_30_seconds s1)))
             | (Inl e, s1) \<Rightarrow>
                 (Inr (), logger_info Pipeline_finished
                            (time_sleep 30 (logger_error (Unexpected_error e) s1))))
          else
            (case time_until_next_start now of
               Inl e \<Rightarrow> (Inl e, s)
             | Inr time_remaining \<Rightarrow>
                 (let minutes = seconds time_remaining div 60;
                      secs = seconds time_remaining mod 60;
                      hours = minutes div 60;
                      minutes' = minutes mod 60
                  in (Inr (), event_wait 600
                                (logger_info (Outside_allowed_time hours minutes' secs) s)))))"

text \<open>
  \<open>loop_pipeline\<close>: \<open>None\<close> is a loop that never ends; \<open>Some (Inr (), s)\<close> is the loop
  left through its condition, with the last log line written; \<open>Some (Inl e, s)\<close> is the
  loop left by an exception.
\<close>

partial_function (option) loop_pipeline ::
  "zoneinfo \<Rightarrow> (nat \<Rightarrow> run_env) \<Rightarrow> world \<Rightarrow> ((error + unit) \<times> world) option" where
  "loop_pipeline zi envs s =
     (if stop_event s then Some (Inr (), logger_info Execution_ended s)
      else (case loop_body zi envs s of
              (Inl e, s1) \<Rightarrow> Some (Inl e, s1)
            | (Inr _, s1) \<Rightarrow> loop_pipeline zi envs s1))"

section \<open>Observations on runs\<close>

text \<open>The events that a step from \<open>s\<close> to \<open>s'\<close> has added to the trace.\<close>

definition events_since :: "world \<Rightarrow> world \<Rightarrow> event list" where
  "events_since s s' = drop (length (trace s)) (trace s')"

text \<open>The events of the storage session, and the call of Load that leads to them.\<close>

fun persistence_event :: "event \<Rightarrow> bool" where
  "persistence_event (Call Load) = True"
| "persistence_event (Session_open _) = True"
| "persistence_event (Session_add _ _) = True"
| "persistence_event (Session_commit _) = True"
| "persistence_event (Session_rollback _) = True"
| "persistence_event (Session_close _) = True"
| "persistence_event _ = False"

text \<open>The document of scenario D of the specification.\<close>

definition scenario_d :: json where
  "scenario_d =
     JDict [(''USDBRL'', JDict [(''code'', JStr ''USD''), (''codein'', JStr ''BRL''),
                               (''bid'', JStr ''5.12''), (''timestamp'', JStr ''1700000000'')])]"

text \<open>A zone table with the offset of America/Sao_Paulo since 2019: three hours behind UTC.\<close>

definition minus_three :: zoneinfo where
  "minus_three = (\<lambda>_. - 10800)"


text \<open>A process that has just started, at the given instant, with the given signals to come.\<close>

definition start_world :: "int \<Rightarrow> int list \<Rightarrow> world" where
  "start_world c sigs =
     \<lparr>stop_event = False, clock = c, signals = sigs, trace = [], rows = [], pending = [],
      sessions = 0, runs = 0\<rparr>"

text \<open>A list of events that holds log lines only.\<close>

definition only_logs :: "event list \<Rightarrow> bool" where
  "only_logs es \<longleftrightarrow> (\<forall>e \<in> set es. \<exists>l m. e = Log l m)"

text \<open>
  Outsides of a run, for the examples: a good answer that the store accepts, a commit that
  raises, an \<open>add\<close> that raises, a 404 answer, an empty document, a document without the
  fields of the pair, and a server that cannot be reached.
\<close>

definition env_ok :: run_env where
  "env_ok = \<lparr>http = Inr \<lparr>status_code = 200, body_text = ''{...}'', body_json = Inr scenario_d\<rparr>,
             latency = 250000, add_error = None, commit_error = None, rollback_error = None\<rparr>"

definition env_commit_fails :: run_env where
  "env_commit_fails = env_ok\<lparr>commit_error := Some (DatabaseError ''connection lost'')\<rparr>"

definition env_add_fails :: run_env where
  "env_add_fails = env_ok\<lparr>add_error := Some (DatabaseError ''session unusable'')\<rparr>"

definition env_not_found :: run_env where
  "env_not_found = env_ok\<lparr>http := Inr \<lparr>status_code = 404, body_text = ''Not Found'',
                                        body_json = Inl JSONDecodeError\<rparr>\<rparr>"

definition env_empty_document :: run_env where
  "env_empty_document = env_ok\<lparr>http := Inr \<lparr>status_code = 200, body_text = ''{}'',
                                             body_json = Inr (JDict [])\<rparr>\<rparr>"

definition env_no_pair :: run_env where
  "env_no_pair = env_ok\<lparr>http := Inr \<lparr>status_code = 200, body_text = ''{\"USDBRL\": {}}'',
                                      body_json = Inr (JDict [(''USDBRL'', JDict [])])\<rparr>\<rparr>"

definition env_unreachable :: run_env where
  "env_unreachable = env_ok\<lparr>http := Inl ConnectionError\<rparr>"

text \<open>Tuesday 2023-11-14 at 10:00:00 in Sao Paulo (13:00:00 UTC), inside the window.\<close>

definition tuesday_10h :: int where
  "tuesday_10h = 1699966800000000"

text \<open>The record that Transform makes of scenario D a quarter of a second later.\<close>

definition quote_d :: quote where
  "quote_d = \<lparr>moeda_origem = JStr ''USD'', moeda_destino = JStr ''BRL'',
              valor_de_compra = JStr ''5.12'',
              timestamp_moeda = \<lparr>ordinal = 738838, hour = 19, minute = 13, second = 20,
                                 microsecond = 0, tzinfo = Sao_Paulo\<rparr>,
              timestamp_criacao = \<lparr>ordinal = 738838, hour = 10, minute = 0, second = 0,
                                   microsecond = 250000, tzinfo = Sao_Paulo\<rparr>\<rparr>"

text \<open>The same outside for every run of the loop.\<close>

definition always :: "run_env \<Rightarrow> nat \<Rightarrow> run_env" where
  "always env n = env"

text \<open>
  Two processes for the examples of the loop: one started on that Tuesday at 10:00:00 that
  receives SIGTERM 5.25 seconds later, and one started on the Saturday after it at 10:00:00.
\<close>

definition sigterm_after_5s :: world where
  "sigterm_after_5s = start_world tuesday_10h [tuesday_10h + 5250000]"

definition saturday_10h :: int where
  "saturday_10h = tuesday_10h + 4 * 86400000000"


section \<open>Arithmetic of dates and durations\<close>

lemma one_day: "mk_timedelta 1 0 0 = \<lparr>days = 1, seconds = 0, microseconds = 0\<rparr>"
  by (simp add: mk_timedelta_def)

lemma dt_add_day_ordinal:
  assumes a: "dt_add d (mk_timedelta 1 0 0) = Inr d'"
  shows "ordinal d < ordinal d' \<and> ordinal d' \<le> MAXORDINAL"
proof -
  define k where "k = (seconds_of_day d + int (microsecond d) div 1000000) div 86400"
  have "0 \<le> seconds_of_day d"
    by (simp add: seconds_of_day_def)
  then have k0: "0 \<le> k"
    unfolding k_def by (simp add: pos_imp_zdiv_nonneg_iff)
  have dd: "days (mk_timedelta (int (ordinal d) + 1) (seconds_of_day d) (int (microsecond d)))
              = int (ordinal d) + 1 + k"
    by (simp add: mk_timedelta_def Let_def k_def)
  from a have "0 < int (ordinal d) + 1 + k \<and> int (ordinal d) + 1 + k \<le> int MAXORDINAL
                 \<and> ordinal d' = nat (int (ordinal d) + 1 + k)"
    unfolding dt_add_def one_day Let_def
    by (simp add: dd split: if_splits) auto
  with k0 show ?thesis by linarith
qed

lemma sod_div: 
  fixes h m s :: nat
  assumes "h < 24" "m < 60" "s < 60"
  shows "(int s + int m * 60 + int h * 3600) div 3600 = int h"
    and "((int s + int m * 60 + int h * 3600) mod 3600) div 60 = int m"
    and "(int s + int m * 60 + int h * 3600) mod 60 = int s"
    and "(int s + int m * 60 + int h * 3600) div 86400 = 0"
    and "(int s + int m * 60 + int h * 3600) mod 86400 = int s + int m * 60 + int h * 3600"
proof -
  have x: "0 \<le> int s + int m * 60" "int s + int m * 60 < 3600"
    using assms by simp_all
  have y: "0 \<le> int s + int m * 60 + int h * 3600" "int s + int m * 60 + int h * 3600 < 86400"
    using assms by simp_all
  show "(int s + int m * 60 + int h * 3600) div 3600 = int h"
    using x by simp
  have "(int s + int m * 60 + int h * 3600) mod 3600 = int s + int m * 60"
    using x by simp
  then show "((int s + int m * 60 + int h * 3600) mod 3600) div 60 = int m"
    using assms by simp
  have "int s + int m * 60 + int h * 3600 = int s + (int m + int h * 60) * 60"
    by simp
  then have "(int s + int m * 60 + int h * 3600) mod 60 = (int s + (int m + int h * 60) * 60) mod 60"
    by (simp only:)
  also have "\<dots> = int s mod 60"
    by (simp only: mod_mult_self1)
  also have "\<dots> = int s"
    using assms by simp
  finally show "(int s + int m * 60 + int h * 3600) mod 60 = int s" .
  show "(int s + int m * 60 + int h * 3600) div 86400 = 0"
    using y by simp
  show "(int s + int m * 60 + int h * 3600) mod 86400 = int s + int m * 60 + int h * 3600"
    using y by simp
qed


lemma sod_fields:
  assumes "hour d < 24" "minute d < 60" "second d < 60"
  shows "nat (seconds_of_day d div 3600) = hour d"
    and "nat ((seconds_of_day d mod 3600) div 60) = minute d"
    and "nat (seconds_of_day d mod 60) = second d"
    and "0 \<le> seconds_of_day d" and "seconds_of_day d < 86400"
proof -
  note sd = sod_div[OF assms]
  show "nat (seconds_of_day d div 3600) = hour d"
    unfolding seconds_of_day_def by (simp only: sd nat_int)
  show "nat ((seconds_of_day d mod 3600) div 60) = minute d"
    unfolding seconds_of_day_def by (simp only: sd nat_int)
  show "nat (seconds_of_day d mod 60) = second d"
    unfolding seconds_of_day_def by (simp only: sd nat_int)
  show "0 \<le> seconds_of_day d"
    unfolding seconds_of_day_def by simp
  show "seconds_of_day d < 86400"
    unfolding seconds_of_day_def using assms by simp
qed

lemma mk_timedelta_normal:
  assumes "0 \<le> s" "s < 86400" "0 \<le> u" "u < 1000000"
  shows "mk_timedelta d s u = \<lparr>days = d, seconds = s, microseconds = u\<rparr>"
  using assms by (simp add: mk_timedelta_def Let_def)

lemma dt_add_one_day:
  assumes "hour d < 24" "minute d < 60" "second d < 60" "microsecond d < 1000000"
    and "ordinal d < MAXORDINAL"
  shows "dt_add d (mk_timedelta 1 0 0) = Inr (d\<lparr>ordinal := ordinal d + 1\<rparr>)"
proof -
  note sf = sod_fields[OF assms(1,2,3)]
  have m: "mk_timedelta (int (ordinal d) + 1) (seconds_of_day d) (int (microsecond d))
             = \<lparr>days = int (ordinal d) + 1, seconds = seconds_of_day d,
                microseconds = int (microsecond d)\<rparr>"
    using sf(4,5) assms(4) by (intro mk_timedelta_normal) simp_all
  have "dt_add d (mk_timedelta 1 0 0) =
          Inr \<lparr>ordinal = ordinal d + 1, hour = hour d, minute = minute d, second = second d,
               microsecond = microsecond d, tzinfo = tzinfo d\<rparr>"
    using assms(5) by (simp add: dt_add_def one_day Let_def m sf(1,2,3))
  then show ?thesis
    by (cases d) simp
qed

lemma weekday_step:
  "weekday d = 5 \<Longrightarrow> weekday (d\<lparr>ordinal := ordinal d + 1\<rparr>) = 6"
  "weekday d = 6 \<Longrightarrow> weekday (d\<lparr>ordinal := ordinal d + 1\<rparr>) = 0"
  "weekday d = 5 \<Longrightarrow> weekday (d\<lparr>ordinal := ordinal d + 2\<rparr>) = 0"
  unfolding weekday_def by (simp_all; presburger)+

lemma weekend_before_max:
  assumes "ordinal d \<le> MAXORDINAL"
  shows "weekday d = 5 \<Longrightarrow> ordinal d + 2 < MAXORDINAL"
    and "weekday d = 6 \<Longrightarrow> ordinal d + 1 < MAXORDINAL"
  using assms unfolding weekday_def MAXORDINAL_def by presburger+

lemma weekend_loop_valid:
  assumes "valid_datetime d"
  shows "weekend_loop weekday n d =
           (if weekday d = 5 then (n + 2, Inr (d\<lparr>ordinal := ordinal d + 2\<rparr>))
            else if weekday d = 6 then (n + 1, Inr (d\<lparr>ordinal := ordinal d + 1\<rparr>))
            else (n, Inr d))"
proof -
  define d1 where "d1 = d\<lparr>ordinal := ordinal d + 1\<rparr>"
  define d2 where "d2 = d\<lparr>ordinal := ordinal d + 2\<rparr>"
  have f: "hour d < 24" "minute d < 60" "second d < 60" "microsecond d < 1000000"
    and o: "ordinal d \<le> MAXORDINAL"
    using assms by (simp_all add: valid_datetime_def)
  have f1: "hour d1 < 24" "minute d1 < 60" "second d1 < 60" "microsecond d1 < 1000000"
    using f by (simp_all add: d1_def)
  have wd: "weekday d < 7" by (simp add: weekday_def)
  have stop: "weekend_loop weekday k x = (k, Inr x)" if "weekday x < 5" for k x
    using that by (subst weekend_loop.simps) simp
  have step: "weekend_loop weekday k x = weekend_loop weekday (k + 1) x'"
    if "5 \<le> weekday x" "dt_add x (mk_timedelta 1 0 0) = Inr x'" for k x x'
    using that by (subst weekend_loop.simps) simp
  show ?thesis
  proof (cases "weekday d = 5")
    case True
    have a1: "dt_add d (mk_timedelta 1 0 0) = Inr d1"
      unfolding d1_def using f weekend_before_max(1)[OF o True]
      by (intro dt_add_one_day) simp_all
    have "dt_add d1 (mk_timedelta 1 0 0) = Inr (d1\<lparr>ordinal := ordinal d1 + 1\<rparr>)"
      using f1 weekend_before_max(1)[OF o True]
      by (intro dt_add_one_day) (simp_all add: d1_def)
    then have a2: "dt_add d1 (mk_timedelta 1 0 0) = Inr d2"
      by (simp add: d1_def d2_def)
    have "weekend_loop weekday n d = weekend_loop weekday (n + 1) d1"
      using True a1 by (intro step) simp_all
    also have "\<dots> = weekend_loop weekday (n + 1 + 1) d2"
      using weekday_step(1)[OF True] a2 by (intro step) (simp_all add: d1_def)
    also have "\<dots> = (n + 1 + 1, Inr d2)"
      using weekday_step(3)[OF True] by (intro stop) (simp add: d2_def)
    finally show ?thesis using True by (simp add: d2_def)
  next
    case False
    show ?thesis
    proof (cases "weekday d = 6")
      case True
      have a1: "dt_add d (mk_timedelta 1 0 0) = Inr d1"
        unfolding d1_def using f weekend_before_max(2)[OF o True]
        by (intro dt_add_one_day) simp_all
      have "weekend_loop weekday n d = weekend_loop weekday (n + 1) d1"
        using True a1 by (intro step) simp_all
      also have "\<dots> = (n + 1, Inr d1)"
        using weekday_step(2)[OF True] by (intro stop) (simp add: d1_def)
      finally show ?thesis using True by (simp add: d1_def)
    next
      case F2: False
      with False wd have "weekday d < 5" by arith
      then show ?thesis using False F2 stop by simp
    qed
  qed
qed

lemma skip_weekend_loop: "skip_weekend d = snd (weekend_loop weekday n d)"
proof (induction d arbitrary: n rule: skip_weekend.induct)
  case (1 d)
  show ?case
  proof (cases "5 \<le> weekday d")
    case True
    show ?thesis
    proof (cases "dt_add d (mk_timedelta 1 0 0)")
      case (Inl e)
      then show ?thesis using True
        by (subst skip_weekend.simps, subst weekend_loop.simps) simp
    next
      case (Inr d')
      then show ?thesis using True "1.IH"[OF True Inr, of "n + 1"]
        by (subst skip_weekend.simps, subst weekend_loop.simps) simp
    qed
  next
    case False
    then show ?thesis
      by (subst skip_weekend.simps, subst weekend_loop.simps) simp
  qed
qed





lemma dt_le_at_8: "dt_le (at_8 now) now \<longleftrightarrow> 8 \<le> hour now"
  unfolding dt_le_def dt_less_def at_8_def by auto

lemma at_8_fields:
  "ordinal (at_8 d) = ordinal d" "hour (at_8 d) = 8" "minute (at_8 d) = 0"
  "second (at_8 d) = 0" "microsecond (at_8 d) = 0" "tzinfo (at_8 d) = tzinfo d"
  by (simp_all add: at_8_def)

lemma initial_step:
  assumes "valid_datetime now" "ordinal now < MAXORDINAL \<or> hour now < 8"
  shows "(if dt_le (at_8 now) now then dt_add (at_8 now) (mk_timedelta 1 0 0) else Inr (at_8 now))
           = Inr ((at_8 now)\<lparr>ordinal := ordinal now + (if 8 \<le> hour now then 1 else 0)\<rparr>)"
proof (cases "8 \<le> hour now")
  case True
  with assms(2) have "ordinal (at_8 now) < MAXORDINAL" by (simp add: at_8_fields)
  then have "dt_add (at_8 now) (mk_timedelta 1 0 0) = Inr ((at_8 now)\<lparr>ordinal := ordinal (at_8 now) + 1\<rparr>)"
    by (intro dt_add_one_day) (simp_all add: at_8_fields)
  then show ?thesis using True by (simp add: dt_le_at_8 at_8_fields)
next
  case False
  have "(at_8 now)\<lparr>ordinal := ordinal now\<rparr> = at_8 now"
    by (simp add: at_8_def)
  with False show ?thesis by (simp add: dt_le_at_8)
qed

section \<open>The operating window: claims\<close>

text \<open>
  Claim C3. For a datetime \<open>now\<close> read from the clock in the zone of the process,
  \<open>is_within_allowed_time\<close> is true exactly when the weekday is Monday to Friday
  (\<open>weekday\<close> 0 to 4) and the time of day lies between 08:00:00 and 19:00:00, both ends
  included (28800000000 and 68400000000 microseconds after midnight). On a Saturday or a
  Sunday it is false whatever the time of day. On a working day it is true at 08:00:00 sharp
  and at 19:00:00 sharp.
\<close>

theorem is_within_allowed_time_window:
  assumes "valid_datetime now"
  shows "(is_within_allowed_time now \<longleftrightarrow>
            weekday now \<le> 4 \<and> 28800000000 \<le> time_of_day_us now
              \<and> time_of_day_us now \<le> 68400000000)
       \<and> (weekday now = 5 \<or> weekday now = 6 \<longrightarrow> \<not> is_within_allowed_time now)
       \<and> (weekday now \<le> 4 \<longrightarrow>
            is_within_allowed_time (at_8 now) \<and> is_within_allowed_time (at_19 now))"
proof (intro conjI)
  show "is_within_allowed_time now \<longleftrightarrow>
          weekday now \<le> 4 \<and> 28800000000 \<le> time_of_day_us now \<and> time_of_day_us now \<le> 68400000000"
    using assms
    unfolding is_within_allowed_time_def valid_datetime_def time_of_day_us_def dt_le_def
      dt_less_def Let_def
    by simp arith
  show "weekday now = 5 \<or> weekday now = 6 \<longrightarrow> \<not> is_within_allowed_time now"
    by (auto simp: is_within_allowed_time_def)
  show "weekday now \<le> 4 \<longrightarrow>
          is_within_allowed_time (at_8 now) \<and> is_within_allowed_time (at_19 now)"
    by (simp add: is_within_allowed_time_def at_8_def at_19_def weekday_def dt_le_def dt_less_def)
qed

theorem is_within_allowed_time_window_witness:
  "valid_datetime \<lparr>ordinal = 738888, hour = 10, minute = 0, second = 0, microsecond = 0,
                   tzinfo = Sao_Paulo\<rparr>
   \<and> is_within_allowed_time \<lparr>ordinal = 738888, hour = 10, minute = 0, second = 0,
                             microsecond = 0, tzinfo = Sao_Paulo\<rparr>
   \<and> is_within_allowed_time \<lparr>ordinal = 738888, hour = 8, minute = 0, second = 0,
                             microsecond = 0, tzinfo = Sao_Paulo\<rparr>
   \<and> is_within_allowed_time \<lparr>ordinal = 738888, hour = 19, minute = 0, second = 0,
                             microsecond = 0, tzinfo = Sao_Paulo\<rparr>
   \<and> \<not> is_within_allowed_time \<lparr>ordinal = 738888, hour = 19, minute = 0, second = 0,
                               microsecond = 1, tzinfo = Sao_Paulo\<rparr>
   \<and> \<not> is_within_allowed_time \<lparr>ordinal = 738888, hour = 7, minute = 59, second = 59,
                               microsecond = 999999, tzinfo = Sao_Paulo\<rparr>
   \<and> \<not> is_within_allowed_time \<lparr>ordinal = 738891, hour = 10, minute = 0, second = 0,
                               microsecond = 0, tzinfo = Sao_Paulo\<rparr>"
  using is_within_allowed_time_window
          [of "\<lparr>ordinal = 738888, hour = 10, minute = 0, second = 0, microsecond = 0,
                tzinfo = Sao_Paulo\<rparr>"]
        is_within_allowed_time_window
          [of "\<lparr>ordinal = 738888, hour = 19, minute = 0, second = 0, microsecond = 1,
                tzinfo = Sao_Paulo\<rparr>"]
        is_within_allowed_time_window
          [of "\<lparr>ordinal = 738888, hour = 7, minute = 59, second = 59, microsecond = 999999,
                tzinfo = Sao_Paulo\<rparr>"]
        is_within_allowed_time_window
          [of "\<lparr>ordinal = 738891, hour = 10, minute = 0, second = 0, microsecond = 0,
                tzinfo = Sao_Paulo\<rparr>"]
  by (simp add: valid_datetime_def MAXORDINAL_def weekday_def time_of_day_us_def at_8_def at_19_def)

lemma valid_at_8: "valid_datetime d \<Longrightarrow> valid_datetime (at_8 d)"
  by (simp add: valid_datetime_def at_8_fields)

lemma next_start_value:
  assumes v: "valid_datetime now" and r: "ordinal now < MAXORDINAL \<or> hour now < 8"
  defines "n1 \<equiv> (at_8 now)\<lparr>ordinal := ordinal now + (if 8 \<le> hour now then 1 else 0)\<rparr>"
  defines "k \<equiv> (if weekday n1 = 5 then 2 else if weekday n1 = 6 then 1 else 0 :: nat)"
  defines "n2 \<equiv> n1\<lparr>ordinal := ordinal n1 + k\<rparr>"
  shows "time_until_next_start now = Inr (dt_sub n2 now)"
    and "valid_datetime n2" and "weekday n2 \<le> 4" and "tzinfo n2 = tzinfo now"
    and "n2 = at_8 n2"
    and "weekend_loop weekday 0 n1 = (k, Inr n2)"
proof -
  have o: "1 \<le> ordinal now" "ordinal now \<le> MAXORDINAL"
    using v by (simp_all add: valid_datetime_def)
  have v1: "valid_datetime n1"
    using o r by (auto simp: valid_datetime_def n1_def at_8_fields)
  have wl: "weekend_loop weekday 0 n1 = (k, Inr n2)"
    unfolding weekend_loop_valid[OF v1] k_def n2_def by simp
  then show "weekend_loop weekday 0 n1 = (k, Inr n2)" .
  have sk: "skip_weekend n1 = Inr n2"
    using skip_weekend_loop[of n1 0] wl by simp
  show "time_until_next_start now = Inr (dt_sub n2 now)"
    unfolding time_until_next_start_def at_8_def[symmetric] Let_def initial_step[OF v r]
    using sk by (simp add: n1_def)
  have wd: "weekday n1 < 7" by (simp add: weekday_def)
  show "weekday n2 \<le> 4"
    using weekday_step[of n1] wd unfolding n2_def k_def by auto
  have "ordinal n1 \<le> MAXORDINAL" using v1 by (simp add: valid_datetime_def)
  from weekend_before_max[OF this] v1 show "valid_datetime n2"
    unfolding n2_def k_def valid_datetime_def by auto
  show "tzinfo n2 = tzinfo now"
    by (simp add: n2_def n1_def at_8_fields)
  show "n2 = at_8 n2"
    by (simp add: n2_def n1_def at_8_def)
qed



lemma dt_add_overflow:
  assumes "hour d < 24" "minute d < 60" "second d < 60" "microsecond d < 1000000"
    and "ordinal d = MAXORDINAL"
  shows "dt_add d (mk_timedelta 1 0 0) = Inl OverflowError"
proof -
  note sf = sod_fields[OF assms(1,2,3)]
  have m: "mk_timedelta (int (ordinal d) + 1) (seconds_of_day d) (int (microsecond d))
             = \<lparr>days = int (ordinal d) + 1, seconds = seconds_of_day d,
                microseconds = int (microsecond d)\<rparr>"
    using sf(4,5) assms(4) by (intro mk_timedelta_normal) simp_all
  note m' = m[unfolded assms(5)]
  show ?thesis
    by (simp add: dt_add_def one_day Let_def assms(5) m')
qed

lemmas dt_defs = dt_add_def dt_sub_def mk_timedelta_def dt_le_def dt_less_def weekday_def
  seconds_of_day_def MAXORDINAL_def Let_def

lemmas clock_defs = datetime_now_def utc_of_microseconds_def astimezone_def timestamp_of_utc_def
  EPOCH_ORDINAL_def GMTIME_MIN_def GMTIME_MAX_def minus_three_def















text \<open>
  Claim C5, as it is written, says that the code bounds the weekend loop explicitly. The
  loop has no bound of its own: its exits are the weekday test and the range error of the
  addition. With a weekday computation that stays at Saturday, the loop started at
  9999-12-28 makes three advances and is stopped by \<open>OverflowError\<close> only.
\<close>

theorem weekend_loop_unbounded_counterexample:
  "weekend_loop always_saturday 0 \<lparr>ordinal = 3652056, hour = 8, minute = 0, second = 0,
                            microsecond = 0, tzinfo = Sao_Paulo\<rparr>
     = (3, Inl OverflowError)"
  by (simp add: always_saturday_def dt_defs)

text \<open>
  Claim C5, amended. For every instant \<open>now\<close>, \<open>time_until_next_start\<close> ends: either
  the initial step to the next day raises \<open>OverflowError\<close> (on 9999-12-31 from 08:00:00
  on), or the weekend loop, started at the value \<open>n1\<close> of the initial step, makes \<open>k\<close>
  one-day advances with \<open>k\<close> at most 2, and stops at a Monday to Friday. The bound comes
  from the cycle of the weekdays, not from a limit written in the loop.
\<close>

theorem weekend_loop_at_most_two_advances:
  assumes "valid_datetime now"
  shows "(ordinal now = MAXORDINAL \<and> 8 \<le> hour now
            \<and> time_until_next_start now = Inl OverflowError)
       \<or> (\<exists>n1 k n2.
             (if dt_le (at_8 now) now then dt_add (at_8 now) (mk_timedelta 1 0 0)
              else Inr (at_8 now)) = Inr n1
           \<and> weekend_loop weekday 0 n1 = (k, Inr n2)
           \<and> skip_weekend n1 = Inr n2
           \<and> k \<le> 2 \<and> n2 = n1\<lparr>ordinal := ordinal n1 + k\<rparr> \<and> weekday n2 \<le> 4
           \<and> time_until_next_start now = Inr (dt_sub n2 now))"
proof (cases "ordinal now < MAXORDINAL \<or> hour now < 8")
  case True
  define n1 where "n1 = (at_8 now)\<lparr>ordinal := ordinal now + (if 8 \<le> hour now then 1 else 0)\<rparr>"
  define k where "k = (if weekday n1 = 5 then 2 else if weekday n1 = 6 then 1 else 0 :: nat)"
  define n2 where "n2 = n1\<lparr>ordinal := ordinal n1 + k\<rparr>"
  note nv = next_start_value[OF assms True, folded n1_def, folded k_def, folded n2_def]
  have i: "(if dt_le (at_8 now) now then dt_add (at_8 now) (mk_timedelta 1 0 0)
            else Inr (at_8 now)) = Inr n1"
    unfolding n1_def by (rule initial_step[OF assms True])
  have sk: "skip_weekend n1 = Inr n2"
    using skip_weekend_loop[of n1 0] nv(6) by simp
  have k2: "k \<le> 2" by (simp add: k_def)
  show ?thesis
    using i nv(6) sk k2 n2_def nv(3) nv(1) by blast
next
  case False
  with assms have m: "ordinal now = MAXORDINAL" and h: "8 \<le> hour now"
    by (auto simp: valid_datetime_def)
  have "dt_add (at_8 now) (mk_timedelta 1 0 0) = Inl OverflowError"
    using m by (intro dt_add_overflow) (simp_all add: at_8_fields)
  then have "time_until_next_start now = Inl OverflowError"
    unfolding time_until_next_start_def at_8_def[symmetric] Let_def
    using h by (simp add: dt_le_at_8)
  with m h show ?thesis by blast
qed


theorem weekend_loop_at_most_two_advances_witness:
  "valid_datetime \<lparr>ordinal = 738890, hour = 20, minute = 0, second = 0, microsecond = 0,
                   tzinfo = Sao_Paulo\<rparr>
   \<and> weekday \<lparr>ordinal = 738890, hour = 20, minute = 0, second = 0, microsecond = 0,
               tzinfo = Sao_Paulo\<rparr> = 4
   \<and> weekend_loop weekday 0 \<lparr>ordinal = 738891, hour = 8, minute = 0, second = 0,
                              microsecond = 0, tzinfo = Sao_Paulo\<rparr>
       = (2, Inr \<lparr>ordinal = 738893, hour = 8, minute = 0, second = 0, microsecond = 0,
                  tzinfo = Sao_Paulo\<rparr>)
   \<and> time_until_next_start \<lparr>ordinal = 738890, hour = 20, minute = 0, second = 0,
                            microsecond = 0, tzinfo = Sao_Paulo\<rparr>
       = Inr \<lparr>days = 2, seconds = 43200, microseconds = 0\<rparr>"
proof -
  let ?now = "\<lparr>ordinal = 738890, hour = 20, minute = 0, second = 0, microsecond = 0,
               tzinfo = Sao_Paulo\<rparr>"
  let ?sat = "\<lparr>ordinal = 738891, hour = 8, minute = 0, second = 0, microsecond = 0,
               tzinfo = Sao_Paulo\<rparr>"
  have v: "valid_datetime ?now"
    by (simp add: valid_datetime_def MAXORDINAL_def)
  have i: "(if dt_le (at_8 ?now) ?now then dt_add (at_8 ?now) (mk_timedelta 1 0 0)
            else Inr (at_8 ?now)) = Inr ?sat"
    by (simp add: at_8_def dt_defs)
  from weekend_loop_at_most_two_advances[OF v] i obtain k n2 where
    w: "weekend_loop weekday 0 ?sat = (k, Inr n2)" "n2 = ?sat\<lparr>ordinal := ordinal ?sat + k\<rparr>"
       "weekday n2 \<le> 4" "k \<le> 2" "time_until_next_start ?now = Inr (dt_sub n2 ?now)"
    by (auto simp: MAXORDINAL_def)
  have "k \<noteq> 0"
    using w(2,3) by (cases "k = 0") (simp_all add: weekday_def)
  moreover have "k \<noteq> 1"
    using w(2,3) by (cases "k = 1") (simp_all add: weekday_def)
  ultimately have "k \<noteq> 0" "k \<noteq> 1" .
  with w(4) have k: "k = 2" by arith
  with w(2) have n2: "n2 = \<lparr>ordinal = 738893, hour = 8, minute = 0, second = 0,
                              microsecond = 0, tzinfo = Sao_Paulo\<rparr>"
    by simp
  have "dt_sub n2 ?now = \<lparr>days = 2, seconds = 43200, microseconds = 0\<rparr>"
    unfolding n2 by (simp add: dt_defs)
  with w(1,5) k n2 v show ?thesis
    by (simp add: weekday_def)
qed


section \<open>Transform: claim\<close>

lemma now_sao_paulo:
  "and_then (datetime_now zi UTC c) (astimezone zi) = datetime_now zi Sao_Paulo c"
  by (simp add: datetime_now_def and_then_def split: sum.splits)

lemma int_of_string_1700000000: "int_of_string ''1700000000'' = Inr 1700000000"
  by (simp add: int_of_string_def strip_def is_space_def is_digit_def)

lemma render_1700000000:
  assumes "zi 1700000000 = - 10800"
  shows "and_then (fromtimestamp 1700000000) (astimezone zi)
           = Inr \<lparr>ordinal = 738838, hour = 19, minute = 13, second = 20, microsecond = 0,
                  tzinfo = Sao_Paulo\<rparr>"
proof -
  have u: "fromtimestamp 1700000000
             = Inr \<lparr>ordinal = 738838, hour = 22, minute = 13, second = 20, microsecond = 0,
                    tzinfo = UTC\<rparr>"
    by (simp add: fromtimestamp_def utc_of_microseconds_def EPOCH_ORDINAL_def MAXORDINAL_def
          GMTIME_MIN_def GMTIME_MAX_def)
  have t: "timestamp_of_utc \<lparr>ordinal = 738838, hour = 22, minute = 13, second = 20,
                              microsecond = 0, tzinfo = UTC\<rparr> = 1700000000"
    by (simp add: timestamp_of_utc_def EPOCH_ORDINAL_def seconds_of_day_def)
  have a: "astimezone zi \<lparr>ordinal = 738838, hour = 22, minute = 13, second = 20,
                            microsecond = 0, tzinfo = UTC\<rparr>
             = Inr \<lparr>ordinal = 738838, hour = 19, minute = 13, second = 20, microsecond = 0,
                    tzinfo = Sao_Paulo\<rparr>"
    unfolding astimezone_def t assms by (simp add: dt_defs)
  show ?thesis
    by (simp add: u a and_then_def)
qed

lemma transform_data_scenario_d_value:
  assumes "zi 1700000000 = - 10800" and "datetime_now zi Sao_Paulo c = Inr criacao"
  shows "transform_data zi c scenario_d
           = Inr \<lparr>moeda_origem = JStr ''USD'',
                  moeda_destino = JStr ''BRL'',
                  valor_de_compra = JStr ''5.12'',
                  timestamp_moeda =
                    \<lparr>ordinal = ymd2ord 2023 11 14, hour = 19, minute = 13, second = 20,
                     microsecond = 0, tzinfo = Sao_Paulo\<rparr>,
                  timestamp_criacao = criacao\<rparr>
       \<and> datetime_now zi Sao_Paulo (1700000000 * 1000000)
           = Inr \<lparr>ordinal = ymd2ord 2023 11 14, hour = 19, minute = 13, second = 20,
                  microsecond = 0, tzinfo = Sao_Paulo\<rparr>"
proof -
  have y: "ymd2ord 2023 11 14 = 738838"
    by (simp add: ymd2ord_def days_before_year_def days_before_month_def is_leap_def)
  have g: "and_then (getitem scenario_d ''USDBRL'') (\<lambda>p. getitem p ''code'') = Inr (JStr ''USD'')"
    "and_then (getitem scenario_d ''USDBRL'') (\<lambda>p. getitem p ''codein'') = Inr (JStr ''BRL'')"
    "and_then (getitem scenario_d ''USDBRL'') (\<lambda>p. getitem p ''bid'') = Inr (JStr ''5.12'')"
    "and_then (getitem scenario_d ''USDBRL'') (\<lambda>p. getitem p ''timestamp'') = Inr (JStr ''1700000000'')"
    by (simp_all add: scenario_d_def and_then_def)
  note r = render_1700000000[of zi, OF assms(1)]
  have m: "and_then (fromtimestamp 1700000000) (\<lambda>utc. and_then (astimezone zi utc) f)
             = f \<lparr>ordinal = 738838, hour = 19, minute = 13, second = 20, microsecond = 0,
                  tzinfo = Sao_Paulo\<rparr>" for f :: "datetime \<Rightarrow> error + quote"
    using r by (auto simp: and_then_def split: sum.splits)
  have n: "and_then (datetime_now zi UTC c) (\<lambda>now_utc. and_then (astimezone zi now_utc) f)
             = f criacao" for f :: "datetime \<Rightarrow> error + quote"
    using now_sao_paulo[of zi c] assms(2) by (auto simp: and_then_def split: sum.splits)
  have 1: "transform_data zi c scenario_d
           = Inr \<lparr>moeda_origem = JStr ''USD'', moeda_destino = JStr ''BRL'',
                  valor_de_compra = JStr ''5.12'',
                  timestamp_moeda =
                    \<lparr>ordinal = 738838, hour = 19, minute = 13, second = 20,
                     microsecond = 0, tzinfo = Sao_Paulo\<rparr>,
                  timestamp_criacao = criacao\<rparr>"
    unfolding transform_data_def g
    by (simp add: and_then_def[of "Inr x" for x] int_of_string_1700000000 m n)
  have "utc_of_microseconds (1700000000 * 1000000) = fromtimestamp 1700000000"
    by (simp add: fromtimestamp_def)
  then have 2: "datetime_now zi Sao_Paulo (1700000000 * 1000000)
           = and_then (fromtimestamp 1700000000) (astimezone zi)"
    by (simp add: datetime_now_def and_then_def split: sum.splits)
  show ?thesis
    unfolding y 2 r using 1 by simp
qed

text \<open>
  Claim C8. Given the document of scenario D, \<open>transform_data\<close> returns a record with
  \<open>moeda_origem = "USD"\<close>, \<open>moeda_destino = "BRL"\<close>, \<open>valor_de_compra = "5.12"\<close>, and
  \<open>timestamp_moeda\<close> the instant of epoch second 1700000000 rendered in the zone
  America/Sao_Paulo: 2023-11-14 19:13:20, three hours behind UTC. The zone's table is a
  parameter; what is used of it is its offset at that instant. The record is returned
  whenever the clock of the process can be rendered in the zone, and then
  \<open>timestamp_criacao\<close> is that rendering.
\<close>

theorem transform_data_scenario_d:
  assumes "zi 1700000000 = - 10800" and "datetime_now zi Sao_Paulo c = Inr criacao"
  shows "transform_data zi c scenario_d
           = Inr \<lparr>moeda_origem = JStr ''USD'',
                  moeda_destino = JStr ''BRL'',
                  valor_de_compra = JStr ''5.12'',
                  timestamp_moeda =
                    \<lparr>ordinal = ymd2ord 2023 11 14, hour = 19, minute = 13, second = 20,
                     microsecond = 0, tzinfo = Sao_Paulo\<rparr>,
                  timestamp_criacao = criacao\<rparr>
       \<and> datetime_now zi Sao_Paulo (1700000000 * 1000000)
           = Inr \<lparr>ordinal = ymd2ord 2023 11 14, hour = 19, minute = 13, second = 20,
                  microsecond = 0, tzinfo = Sao_Paulo\<rparr>"
  using assms by (rule transform_data_scenario_d_value)

theorem transform_data_scenario_d_witness:
  "minus_three 1700000000 = - 10800
   \<and> datetime_now minus_three Sao_Paulo 1700000100000000
       = Inr \<lparr>ordinal = 738838, hour = 19, minute = 15, second = 0, microsecond = 0,
              tzinfo = Sao_Paulo\<rparr>
   \<and> transform_data minus_three 1700000100000000 scenario_d
       = Inr \<lparr>moeda_origem = JStr ''USD'',
              moeda_destino = JStr ''BRL'',
              valor_de_compra = JStr ''5.12'',
              timestamp_moeda =
                \<lparr>ordinal = ymd2ord 2023 11 14, hour = 19, minute = 13, second = 20,
                 microsecond = 0, tzinfo = Sao_Paulo\<rparr>,
              timestamp_criacao =
                \<lparr>ordinal = 738838, hour = 19, minute = 15, second = 0, microsecond = 0,
                 tzinfo = Sao_Paulo\<rparr>\<rparr>"
proof -
  have a: "minus_three 1700000000 = - 10800"
    by (simp add: minus_three_def)
  have b: "datetime_now minus_three Sao_Paulo 1700000100000000
             = Inr \<lparr>ordinal = 738838, hour = 19, minute = 15, second = 0, microsecond = 0,
                    tzinfo = Sao_Paulo\<rparr>"
    by (simp add: datetime_now_def utc_of_microseconds_def astimezone_def timestamp_of_utc_def
          EPOCH_ORDINAL_def GMTIME_MIN_def GMTIME_MAX_def minus_three_def dt_defs)
  from transform_data_scenario_d[OF a b] a b show ?thesis
    by simp
qed

section \<open>The state after each operation\<close>

lemma emit_fields:
  "trace (emit e s) = trace s @ [e]" "stop_event (emit e s) = stop_event s"
  "clock (emit e s) = clock s" "signals (emit e s) = signals s" "rows (emit e s) = rows s"
  "pending (emit e s) = pending s" "sessions (emit e s) = sessions s" "runs (emit e s) = runs s"
  by (simp_all add: emit_def)

lemma handlers_fields:
  "trace (fold (\<lambda>_. handle_sigterm) ts s)
     = trace s @ replicate (length ts) (Log INFO Sigterm_received)"
  "stop_event (fold (\<lambda>_. handle_sigterm) ts s) = (stop_event s \<or> ts \<noteq> [])"
  "clock (fold (\<lambda>_. handle_sigterm) ts s) = clock s"
  "signals (fold (\<lambda>_. handle_sigterm) ts s) = signals s"
  "rows (fold (\<lambda>_. handle_sigterm) ts s) = rows s"
  "pending (fold (\<lambda>_. handle_sigterm) ts s) = pending s"
  "sessions (fold (\<lambda>_. handle_sigterm) ts s) = sessions s"
  "runs (fold (\<lambda>_. handle_sigterm) ts s) = runs s"
  by (induction ts arbitrary: s;
      simp add: handle_sigterm_def logger_info_def emit_def replicate_append_same)+

lemma advance_fields:
  "trace (advance d s)
     = trace s @ replicate (length (filter (\<lambda>t. t \<le> clock s + d) (signals s)))
                           (Log INFO Sigterm_received)"
  "stop_event (advance d s) = (stop_event s \<or> (\<exists>t \<in> set (signals s). t \<le> clock s + d))"
  "clock (advance d s) = clock s + d"
  "signals (advance d s) = filter (\<lambda>t. \<not> t \<le> clock s + d) (signals s)"
  "rows (advance d s) = rows s" "pending (advance d s) = pending s"
  "sessions (advance d s) = sessions s" "runs (advance d s) = runs s"
  by (simp_all add: advance_def deliver_def handlers_fields filter_empty_conv)

lemma events_since_append: "trace s' = trace s @ es \<Longrightarrow> events_since s s' = es"
  by (simp add: events_since_def)

lemma start_world_fields:
  "stop_event (start_world c sigs) = False" "clock (start_world c sigs) = c"
  "signals (start_world c sigs) = sigs" "trace (start_world c sigs) = []"
  "rows (start_world c sigs) = []" "pending (start_world c sigs) = []"
  "sessions (start_world c sigs) = 0" "runs (start_world c sigs) = 0"
  by (simp_all add: start_world_def)

lemmas env_defs = env_ok_def env_commit_fails_def env_add_fails_def env_not_found_def
  env_empty_document_def env_no_pair_def env_unreachable_def

lemma env_fields:
  "add_error env_ok = None" "commit_error env_ok = None" "rollback_error env_ok = None"
  "add_error env_commit_fails = None"
  "commit_error env_commit_fails = Some (DatabaseError ''connection lost'')"
  "rollback_error env_commit_fails = None"
  "add_error env_add_fails = Some (DatabaseError ''session unusable'')"
  "rollback_error env_add_fails = None"
  by (simp_all add: env_defs)

lemma only_logs_simps:
  "only_logs []" "only_logs (Log l m # es) = only_logs es"
  "only_logs (es @ fs) = (only_logs es \<and> only_logs fs)"
  "only_logs (replicate n (Log l m))"
  by (auto simp: only_logs_def)

lemma only_logs_no_call: "only_logs es \<Longrightarrow> Call st \<notin> set es"
  by (auto simp: only_logs_def)

lemma only_logs_no_persistence: "only_logs es \<Longrightarrow> e \<in> set es \<Longrightarrow> \<not> persistence_event e"
  by (auto simp: only_logs_def)

section \<open>Load: claim\<close>

lemmas save_defs = save_data_postgres_def save_try_def session_rollback_def session_close_def
  logger_info_def logger_error_def emit_def events_since_def Let_def

lemma save_ok:
  assumes "add_error env = None" "commit_error env = None"
  shows "save_data_postgres env data s =
     (Inr (), s\<lparr>sessions := sessions s + 1, pending := [], rows := rows s @ [data],
                trace := trace s @ [Session_open (sessions s), Session_add (sessions s) data,
                   Session_commit (sessions s), Log INFO (Data_saved (timestamp_criacao data)),
                   Session_close (sessions s)]\<rparr>)"
  using assms by (simp add: save_defs)

lemma save_add_fails:
  assumes "add_error env = Some e"
  shows "save_data_postgres env data s =
     (case rollback_error env of None \<Rightarrow> Inr () | Some e' \<Rightarrow> Inl e',
      s\<lparr>sessions := sessions s + 1, pending := [],
        trace := trace s @ [Session_open (sessions s), Session_add (sessions s) data,
                   Log ERROR (Save_error e), Session_rollback (sessions s),
                   Session_close (sessions s)]\<rparr>)"
  using assms by (simp add: save_defs split: option.splits)

lemma save_commit_fails:
  assumes "add_error env = None" "commit_error env = Some e"
  shows "save_data_postgres env data s =
     (case rollback_error env of None \<Rightarrow> Inr () | Some e' \<Rightarrow> Inl e',
      s\<lparr>sessions := sessions s + 1, pending := [],
        trace := trace s @ [Session_open (sessions s), Session_add (sessions s) data,
                   Session_commit (sessions s),
                   Log ERROR (Save_error e), Session_rollback (sessions s),
                   Session_close (sessions s)]\<rparr>)"
  using assms by (simp add: save_defs split: option.splits)

text \<open>
  Claim C9. Every call of \<open>save_data_postgres\<close> opens a session of its own (numbered by
  the count of sessions so far, so not one opened before) and closes it as its last act, on
  the path where the record is committed and on the paths where \<open>add\<close> or \<open>commit\<close>
  raises. On those failing paths \<open>rollback\<close> is called before \<open>close\<close>, the table is
  left as it was, and nothing stays pending.
\<close>

theorem save_data_postgres_session_scope:
  assumes "save_data_postgres env data s = (r, s')"
  shows "sessions s' = sessions s + 1 \<and> pending s' = []
       \<and> (add_error env = None \<and> commit_error env = None \<longrightarrow>
            r = Inr () \<and> rows s' = rows s @ [data]
          \<and> events_since s s' =
              [Session_open (sessions s), Session_add (sessions s) data,
               Session_commit (sessions s), Log INFO (Data_saved (timestamp_criacao data)),
               Session_close (sessions s)])
       \<and> (\<forall>e. add_error env = Some e \<longrightarrow>
            rows s' = rows s
          \<and> events_since s s' =
              [Session_open (sessions s), Session_add (sessions s) data,
               Log ERROR (Save_error e), Session_rollback (sessions s),
               Session_close (sessions s)])
       \<and> (\<forall>e. add_error env = None \<and> commit_error env = Some e \<longrightarrow>
            rows s' = rows s
          \<and> events_since s s' =
              [Session_open (sessions s), Session_add (sessions s) data,
               Session_commit (sessions s), Log ERROR (Save_error e),
               Session_rollback (sessions s), Session_close (sessions s)])
       \<and> ((\<forall>n. Session_open n \<in> set (trace s) \<longrightarrow> n < sessions s) \<longrightarrow>
            Session_open (sessions s) \<notin> set (trace s)
          \<and> (\<forall>n. Session_open n \<in> set (trace s') \<longrightarrow> n < sessions s'))"
proof (cases "add_error env")
  case None
  show ?thesis
  proof (cases "commit_error env")
    case N2: None
    from save_ok[OF None N2, of data s] assms show ?thesis
      using None N2 by (auto simp: events_since_def)
  next
    case (Some e)
    from save_commit_fails[OF None Some, of data s] assms show ?thesis
      using None Some by (auto simp: events_since_def)
  qed
next
  case (Some e)
  from save_add_fails[OF Some, of data s] assms show ?thesis
    using Some by (auto simp: events_since_def)
qed

theorem save_data_postgres_session_scope_witness:
  "events_since (start_world tuesday_10h [])
      (snd (save_data_postgres env_ok quote_d (start_world tuesday_10h [])))
     = [Session_open 0, Session_add 0 quote_d, Session_commit 0,
        Log INFO (Data_saved (timestamp_criacao quote_d)), Session_close 0]
   \<and> rows (snd (save_data_postgres env_ok quote_d (start_world tuesday_10h []))) = [quote_d]
   \<and> events_since (start_world tuesday_10h [])
      (snd (save_data_postgres env_commit_fails quote_d (start_world tuesday_10h [])))
     = [Session_open 0, Session_add 0 quote_d, Session_commit 0,
        Log ERROR (Save_error (DatabaseError ''connection lost'')),
        Session_rollback 0, Session_close 0]
   \<and> rows (snd (save_data_postgres env_commit_fails quote_d (start_world tuesday_10h []))) = []
   \<and> events_since (start_world tuesday_10h [])
      (snd (save_data_postgres env_add_fails quote_d (start_world tuesday_10h [])))
     = [Session_open 0, Session_add 0 quote_d,
        Log ERROR (Save_error (DatabaseError ''session unusable'')),
        Session_rollback 0, Session_close 0]
   \<and> rows (snd (save_data_postgres env_add_fails quote_d (start_world tuesday_10h []))) = []"
proof -
  let ?s = "start_world tuesday_10h []"
  obtain r1 s1 where 1: "save_data_postgres env_ok quote_d ?s = (r1, s1)"
    by (cases "save_data_postgres env_ok quote_d ?s")
  obtain r2 s2 where 2: "save_data_postgres env_commit_fails quote_d ?s = (r2, s2)"
    by (cases "save_data_postgres env_commit_fails quote_d ?s")
  obtain r3 s3 where 3: "save_data_postgres env_add_fails quote_d ?s = (r3, s3)"
    by (cases "save_data_postgres env_add_fails quote_d ?s")
  note t1 = save_data_postgres_session_scope[OF 1]
    and t2 = save_data_postgres_session_scope[OF 2]
    and t3 = save_data_postgres_session_scope[OF 3]
  have "events_since ?s s1 = [Session_open 0, Session_add 0 quote_d, Session_commit 0,
                    Log INFO (Data_saved (timestamp_criacao quote_d)), Session_close 0]"
    "rows s1 = [quote_d]"
    using t1 by (simp_all add: env_defs start_world_fields)
  moreover have "events_since ?s s2 = [Session_open 0, Session_add 0 quote_d, Session_commit 0,
                    Log ERROR (Save_error (DatabaseError ''connection lost'')),
                    Session_rollback 0, Session_close 0]"
    "rows s2 = []"
    using t2 by (simp_all add: env_defs start_world_fields)
  moreover have "events_since ?s s3 = [Session_open 0, Session_add 0 quote_d,
                    Log ERROR (Save_error (DatabaseError ''session unusable'')),
                    Session_rollback 0, Session_close 0]"
    "rows s3 = []"
    using t3 by (simp_all add: env_defs start_world_fields)
  ultimately show ?thesis
    unfolding 1 2 3 by simp
qed

section \<open>One run: claims\<close>

lemma extract_data_effect:
  assumes "extract_data env s = (x, s1)"
  shows "\<exists>ls. trace s1 = trace s @ ls \<and> only_logs ls"
    and "rows s1 = rows s" and "pending s1 = pending s" and "sessions s1 = sessions s"
    and "runs s1 = runs s"
    and "stop_event s \<Longrightarrow> stop_event s1"
  using assms
  by (auto simp: extract_data_def Let_def advance_fields logger_error_def emit_fields
        only_logs_simps split: sum.splits if_splits)

lemma save_data_postgres_effect:
  assumes "save_data_postgres env q s = (r, s')"
  shows "\<exists>es. trace s' = trace s @ es \<and> es \<noteq> [] \<and> (\<forall>sid q'. Session_add sid q' \<in> set es \<longrightarrow> q' = q)"
    and "clock s' = clock s" and "stop_event s' = stop_event s" and "signals s' = signals s"
    and "runs s' = runs s"
proof -
  consider "add_error env = None \<and> commit_error env = None"
    | e where "add_error env = Some e"
    | e where "add_error env = None \<and> commit_error env = Some e"
    by (cases "add_error env"; cases "commit_error env") auto
  then have "(\<exists>es. trace s' = trace s @ es \<and> es \<noteq> [] \<and> (\<forall>sid q'. Session_add sid q' \<in> set es \<longrightarrow> q' = q))
    \<and> clock s' = clock s \<and> stop_event s' = stop_event s \<and> signals s' = signals s \<and> runs s' = runs s"
  proof cases
    case 1
    with save_ok[of env q s] assms show ?thesis by auto
  next
    case 2
    with save_add_fails[of env e q s] assms show ?thesis by auto
  next
    case 3
    with save_commit_fails[of env e q s] assms show ?thesis by auto
  qed
  then show "\<exists>es. trace s' = trace s @ es \<and> es \<noteq> [] \<and> (\<forall>sid q'. Session_add sid q' \<in> set es \<longrightarrow> q' = q)"
    and "clock s' = clock s" and "stop_event s' = stop_event s" and "signals s' = signals s"
    and "runs s' = runs s"
    by blast+
qed

lemma pipeline_no_data:
  assumes "extract_data env (emit (Call Extract) s) = (Inr data, s1)" "\<not> truthy data"
  shows "pipeline zi env s = (Inr (), logger_error No_data_extracted s1)"
  using assms by (simp add: pipeline_def)

lemma pipeline_extract_raises:
  assumes "extract_data env (emit (Call Extract) s) = (Inl e, s1)"
  shows "pipeline zi env s = (Inl e, s1)"
  using assms by (simp add: pipeline_def)

lemma pipeline_transform_raises:
  assumes "extract_data env (emit (Call Extract) s) = (Inr data, s1)" "truthy data"
    "transform_data zi (clock s1) data = Inl e"
  shows "pipeline zi env s = (Inl e, emit (Call Transform) s1)"
  using assms by (simp add: pipeline_def Let_def emit_fields)

lemma pipeline_reaches_load:
  assumes "extract_data env (emit (Call Extract) s) = (Inr data, s1)" "truthy data"
    "transform_data zi (clock s1) data = Inr q"
    "save_data_postgres env q (emit (Call Load) (emit (Call Transform) s1)) = (r, s2)"
  shows "pipeline zi env s = (case r of Inl e \<Rightarrow> (Inl e, s2)
                               | Inr _ \<Rightarrow> (Inr (), logger_info Pipeline_completed s2))"
  using assms by (simp add: pipeline_def Let_def emit_fields split: sum.splits)

lemma pipeline_start:
  assumes "extract_data env (emit (Call Extract) s) = (x, s1)"
  shows "\<exists>ls. trace s1 = trace s @ Call Extract # ls \<and> only_logs ls"
    and "rows s1 = rows s" and "sessions s1 = sessions s"
  using extract_data_effect[OF assms] by (auto simp: emit_fields)

text \<open>
  Claim C6. A run stops at the first stage that fails. If Extract yields no data (a falsy
  document), the run returns at once; if Extract raises, or Transform raises, the exception
  leaves the run. In all three cases Load is not called, no event of the storage session
  occurs and the table is unchanged; in the first two Transform is not called either.
  Whatever a run hands to the session is the complete record that Transform returned.
\<close>

theorem pipeline_short_circuits:
  assumes "extract_data env (emit (Call Extract) s) = (x, s1)"
    and "pipeline zi env s = (r, s')"
  shows "(\<forall>data. x = Inr data \<and> \<not> truthy data \<longrightarrow>
            r = Inr () \<and> s' = logger_error No_data_extracted s1 \<and> rows s' = rows s
          \<and> Call Transform \<notin> set (events_since s s')
          \<and> (\<forall>e \<in> set (events_since s s'). \<not> persistence_event e))
       \<and> (\<forall>e. x = Inl e \<longrightarrow>
            r = Inl e \<and> s' = s1 \<and> rows s' = rows s
          \<and> Call Transform \<notin> set (events_since s s')
          \<and> (\<forall>e \<in> set (events_since s s'). \<not> persistence_event e))
       \<and> (\<forall>data e. x = Inr data \<and> truthy data \<and> transform_data zi (clock s1) data = Inl e \<longrightarrow>
            r = Inl e \<and> s' = emit (Call Transform) s1 \<and> rows s' = rows s
          \<and> (\<forall>e \<in> set (events_since s s'). \<not> persistence_event e))
       \<and> (\<forall>sid q. Session_add sid q \<in> set (events_since s s') \<longrightarrow>
            (\<exists>data. x = Inr data \<and> truthy data \<and> transform_data zi (clock s1) data = Inr q))"
proof -
  from pipeline_start[OF assms(1)] obtain ls where
    ls: "trace s1 = trace s @ Call Extract # ls" "only_logs ls"
    and rw: "rows s1 = rows s"
    by blast
  have nl: "\<not> persistence_event e" "e \<noteq> Call Transform" if "e \<in> set ls" for e
    using that ls(2) by (auto simp: only_logs_def)
  have a: "r = Inr () \<and> s' = logger_error No_data_extracted s1 \<and> rows s' = rows s
          \<and> Call Transform \<notin> set (events_since s s')
          \<and> (\<forall>e \<in> set (events_since s s'). \<not> persistence_event e)"
    if "x = Inr data" "\<not> truthy data" for data
  proof -
    from pipeline_no_data[of env s data s1 zi] that assms
    have "r = Inr ()" "s' = logger_error No_data_extracted s1" by simp_all
    moreover from this ls have "events_since s s' = Call Extract # ls @ [Log ERROR No_data_extracted]"
      by (simp add: events_since_def logger_error_def emit_fields)
    ultimately show ?thesis using nl rw by (auto simp: logger_error_def emit_fields)
  qed
  have b: "r = Inl e \<and> s' = s1 \<and> rows s' = rows s
          \<and> Call Transform \<notin> set (events_since s s')
          \<and> (\<forall>e \<in> set (events_since s s'). \<not> persistence_event e)"
    if "x = Inl e" for e
  proof -
    from pipeline_extract_raises[of env s e s1 zi] that assms
    have "r = Inl e" "s' = s1" by simp_all
    moreover from this ls have "events_since s s' = Call Extract # ls"
      by (simp add: events_since_def)
    ultimately show ?thesis using nl rw by auto
  qed
  have c: "r = Inl e \<and> s' = emit (Call Transform) s1 \<and> rows s' = rows s
          \<and> (\<forall>e \<in> set (events_since s s'). \<not> persistence_event e)"
    if "x = Inr data" "truthy data" "transform_data zi (clock s1) data = Inl e" for data e
  proof -
    from pipeline_transform_raises[of env s data s1 zi e] that assms
    have "r = Inl e" "s' = emit (Call Transform) s1" by simp_all
    moreover from this ls have "events_since s s' = Call Extract # ls @ [Call Transform]"
      by (simp add: events_since_def emit_fields)
    ultimately show ?thesis using nl rw by (auto simp: emit_fields)
  qed
  have d: "\<exists>data. x = Inr data \<and> truthy data \<and> transform_data zi (clock s1) data = Inr q"
    if add: "Session_add sid q \<in> set (events_since s s')" for sid q
  proof (cases x)
    case (Inl e)
    from b[OF Inl] add nl(1) show ?thesis
      by (metis persistence_event.simps(3))
  next
    case (Inr data)
    show ?thesis
    proof (cases "truthy data")
      case False
      from a[OF Inr False] add show ?thesis
        by (metis persistence_event.simps(3))
    next
      case True
      show ?thesis
      proof (cases "transform_data zi (clock s1) data")
        case (Inl e)
        from c[OF Inr True Inl] add show ?thesis
          by (metis persistence_event.simps(3))
      next
        case q': (Inr q')
        obtain r2 s2 where sv: "save_data_postgres env q' (emit (Call Load) (emit (Call Transform) s1)) = (r2, s2)"
          by (cases "save_data_postgres env q' (emit (Call Load) (emit (Call Transform) s1))")
        from save_data_postgres_effect(1)[OF sv] obtain es where
          es: "trace s2 = trace (emit (Call Load) (emit (Call Transform) s1)) @ es"
            "\<forall>sid q''. Session_add sid q'' \<in> set es \<longrightarrow> q'' = q'"
          by blast
        from Inr assms(1) have ex: "extract_data env (emit (Call Extract) s) = (Inr data, s1)"
          by simp
        from pipeline_reaches_load[OF ex True q' sv] assms(2)
        have "s' = s2 \<or> s' = logger_info Pipeline_completed s2"
          by (auto split: sum.splits)
        then have "events_since s s' = Call Extract # ls @ [Call Transform, Call Load] @ es
                 \<or> events_since s s' = Call Extract # ls @ [Call Transform, Call Load] @ es
                                          @ [Log INFO Pipeline_completed]"
          using es(1) ls(1) by (auto simp: events_since_def emit_fields logger_info_def)
        with add nl(1) es(2) have "q = q'"
          by (auto simp: only_logs_def) (metis persistence_event.simps(3))+
        with Inr True q' show ?thesis by simp
      qed
    qed
  qed
  from a b c d show ?thesis by blast
qed

text \<open>The runs of the examples, evaluated.\<close>

lemma now_tuesday:
  "datetime_now minus_three Sao_Paulo (tuesday_10h + 250000)
     = Inr \<lparr>ordinal = 738838, hour = 10, minute = 0, second = 0, microsecond = 250000,
            tzinfo = Sao_Paulo\<rparr>"
  "datetime_now minus_three Sao_Paulo tuesday_10h
     = Inr \<lparr>ordinal = 738838, hour = 10, minute = 0, second = 0, microsecond = 0,
            tzinfo = Sao_Paulo\<rparr>"
  by (simp_all add: clock_defs tuesday_10h_def dt_defs)

lemma transform_scenario_d_tuesday:
  "transform_data minus_three (tuesday_10h + 250000) scenario_d = Inr quote_d"
  using transform_data_scenario_d_value[of minus_three, OF _ now_tuesday(1)]
  by (simp add: minus_three_def quote_d_def ymd2ord_def days_before_year_def
        days_before_month_def is_leap_def)

lemma extract_start:
  "extract_data env_ok (emit (Call Extract) (start_world tuesday_10h []))
     = (Inr scenario_d,
        (start_world tuesday_10h [])\<lparr>clock := tuesday_10h + 250000, trace := [Call Extract]\<rparr>)"
  "extract_data env_commit_fails (emit (Call Extract) (start_world tuesday_10h []))
     = (Inr scenario_d,
        (start_world tuesday_10h [])\<lparr>clock := tuesday_10h + 250000, trace := [Call Extract]\<rparr>)"
  "extract_data env_add_fails (emit (Call Extract) (start_world tuesday_10h []))
     = (Inr scenario_d,
        (start_world tuesday_10h [])\<lparr>clock := tuesday_10h + 250000, trace := [Call Extract]\<rparr>)"
  "extract_data env_not_found (emit (Call Extract) (start_world tuesday_10h []))
     = (Inr JNull,
        (start_world tuesday_10h [])\<lparr>clock := tuesday_10h + 250000,
           trace := [Call Extract, Log ERROR (Api_error 404 ''Not Found'')]\<rparr>)"
  "extract_data env_empty_document (emit (Call Extract) (start_world tuesday_10h []))
     = (Inr (JDict []),
        (start_world tuesday_10h [])\<lparr>clock := tuesday_10h + 250000, trace := [Call Extract]\<rparr>)"
  "extract_data env_no_pair (emit (Call Extract) (start_world tuesday_10h []))
     = (Inr (JDict [(''USDBRL'', JDict [])]),
        (start_world tuesday_10h [])\<lparr>clock := tuesday_10h + 250000, trace := [Call Extract]\<rparr>)"
  "extract_data env_unreachable (emit (Call Extract) (start_world tuesday_10h []))
     = (Inl ConnectionError,
        (start_world tuesday_10h [])\<lparr>clock := tuesday_10h + 250000, trace := [Call Extract]\<rparr>)"
  by (simp_all add: extract_data_def env_defs start_world_def emit_def advance_def deliver_def
        logger_error_def Let_def)

lemma transform_no_pair:
  "transform_data zi c (JDict [(''USDBRL'', JDict [])]) = Inl (KeyError ''code'')"
  by (simp add: transform_data_def and_then_def)

lemma scenario_d_truthy: "truthy scenario_d"
  by (simp add: scenario_d_def)

lemma pipeline_runs:
  "pipeline minus_three env_ok (start_world tuesday_10h [])
     = (Inr (), (start_world tuesday_10h [])\<lparr>clock := tuesday_10h + 250000, sessions := 1,
          rows := [quote_d],
          trace := [Call Extract, Call Transform, Call Load, Session_open 0,
                    Session_add 0 quote_d, Session_commit 0,
                    Log INFO (Data_saved (timestamp_criacao quote_d)), Session_close 0,
                    Log INFO Pipeline_completed]\<rparr>)"
  "pipeline minus_three env_commit_fails (start_world tuesday_10h [])
     = (Inr (), (start_world tuesday_10h [])\<lparr>clock := tuesday_10h + 250000, sessions := 1,
          trace := [Call Extract, Call Transform, Call Load, Session_open 0,
                    Session_add 0 quote_d, Session_commit 0,
                    Log ERROR (Save_error (DatabaseError ''connection lost'')),
                    Session_rollback 0, Session_close 0,
                    Log INFO Pipeline_completed]\<rparr>)"
  "pipeline minus_three env_add_fails (start_world tuesday_10h [])
     = (Inr (), (start_world tuesday_10h [])\<lparr>clock := tuesday_10h + 250000, sessions := 1,
          trace := [Call Extract, Call Transform, Call Load, Session_open 0,
                    Session_add 0 quote_d,
                    Log ERROR (Save_error (DatabaseError ''session unusable'')),
                    Session_rollback 0, Session_close 0,
                    Log INFO Pipeline_completed]\<rparr>)"
  "pipeline minus_three env_not_found (start_world tuesday_10h [])
     = (Inr (), (start_world tuesday_10h [])\<lparr>clock := tuesday_10h + 250000,
          trace := [Call Extract, Log ERROR (Api_error 404 ''Not Found''),
                    Log ERROR No_data_extracted]\<rparr>)"
  "pipeline minus_three env_empty_document (start_world tuesday_10h [])
     = (Inr (), (start_world tuesday_10h [])\<lparr>clock := tuesday_10h + 250000,
          trace := [Call Extract, Log ERROR No_data_extracted]\<rparr>)"
  "pipeline minus_three env_no_pair (start_world tuesday_10h [])
     = (Inl (KeyError ''code''), (start_world tuesday_10h [])\<lparr>clock := tuesday_10h + 250000,
          trace := [Call Extract, Call Transform]\<rparr>)"
  "pipeline minus_three env_unreachable (start_world tuesday_10h [])
     = (Inl ConnectionError, (start_world tuesday_10h [])\<lparr>clock := tuesday_10h + 250000,
          trace := [Call Extract]\<rparr>)"
  unfolding pipeline_def extract_start
  by (simp_all add: scenario_d_truthy transform_scenario_d_tuesday transform_no_pair
        save_defs env_defs start_world_def)

theorem pipeline_short_circuits_witness:
  "fst (pipeline minus_three env_empty_document (start_world tuesday_10h [])) = Inr ()
   \<and> events_since (start_world tuesday_10h [])
        (snd (pipeline minus_three env_empty_document (start_world tuesday_10h [])))
       = [Call Extract, Log ERROR No_data_extracted]
   \<and> fst (pipeline minus_three env_no_pair (start_world tuesday_10h [])) = Inl (KeyError ''code'')
   \<and> events_since (start_world tuesday_10h [])
        (snd (pipeline minus_three env_no_pair (start_world tuesday_10h [])))
       = [Call Extract, Call Transform]
   \<and> fst (pipeline minus_three env_unreachable (start_world tuesday_10h [])) = Inl ConnectionError
   \<and> rows (snd (pipeline minus_three env_ok (start_world tuesday_10h []))) = [quote_d]"
  using pipeline_short_circuits[OF extract_start(5) pipeline_runs(5)]
        pipeline_short_circuits[OF extract_start(6) pipeline_runs(6)]
        pipeline_short_circuits[OF extract_start(7) pipeline_runs(7)]
        pipeline_short_circuits[OF extract_start(1) pipeline_runs(1)]
  by (simp add: pipeline_runs events_since_def start_world_fields logger_error_def emit_fields)

text \<open>
  Claim C10. At the boundary of the run every falsy document is handled as a failed fetch
  is. Extract returns \<open>None\<close> for every status other than 200; for \<open>None\<close> and for
  every other falsy document (an empty object, list or string, zero, false) the run logs
  the same error line and returns before Transform and Load are called, with the table
  unchanged.
\<close>

theorem falsy_document_treated_as_fetch_failure:
  "(\<forall>resp. http env = Inr resp \<and> status_code resp \<noteq> 200 \<longrightarrow>
       fst (extract_data env s0) = Inr JNull)
   \<and> (\<forall>data s1. extract_data env (emit (Call Extract) s) = (Inr data, s1) \<and> \<not> truthy data \<longrightarrow>
         pipeline zi env s = (Inr (), logger_error No_data_extracted s1)
       \<and> Call Transform \<notin> set (events_since s (snd (pipeline zi env s)))
       \<and> Call Load \<notin> set (events_since s (snd (pipeline zi env s)))
       \<and> rows (snd (pipeline zi env s)) = rows s)
   \<and> (\<forall>d. \<not> truthy d \<longleftrightarrow>
         d \<in> {JNull, JBool False, JInt 0, JFloat (Finite 0), JStr [], JList [], JDict []})"
proof (intro conjI allI impI)
  fix resp
  assume "http env = Inr resp \<and> status_code resp \<noteq> 200"
  then show "fst (extract_data env s0) = Inr JNull"
    by (simp add: extract_data_def Let_def)
next
  fix data s1
  assume a: "extract_data env (emit (Call Extract) s) = (Inr data, s1) \<and> \<not> truthy data"
  then have p: "pipeline zi env s = (Inr (), logger_error No_data_extracted s1)"
    by (simp add: pipeline_no_data)
  then show "pipeline zi env s = (Inr (), logger_error No_data_extracted s1)" .
  from a pipeline_start[of env s "Inr data" s1] obtain ls where
    ls: "trace s1 = trace s @ Call Extract # ls" "only_logs ls" and rw: "rows s1 = rows s"
    by blast
  have ev: "events_since s (snd (pipeline zi env s)) = Call Extract # ls @ [Log ERROR No_data_extracted]"
    unfolding p using ls(1) by (simp add: events_since_def logger_error_def emit_fields)
  show "Call Transform \<notin> set (events_since s (snd (pipeline zi env s)))"
    unfolding ev using only_logs_no_call[OF ls(2)] by simp
  show "Call Load \<notin> set (events_since s (snd (pipeline zi env s)))"
    unfolding ev using only_logs_no_call[OF ls(2)] by simp
  show "rows (snd (pipeline zi env s)) = rows s"
    unfolding p using rw by (simp add: logger_error_def emit_fields)
next
  fix d
  show "\<not> truthy d \<longleftrightarrow>
         d \<in> {JNull, JBool False, JInt 0, JFloat (Finite 0), JStr [], JList [], JDict []}"
    by (cases d) auto
qed

theorem falsy_document_treated_as_fetch_failure_witness:
  "status_code \<lparr>status_code = 404, body_text = ''Not Found'',
                 body_json = Inl JSONDecodeError\<rparr> \<noteq> 200
   \<and> \<not> truthy JNull \<and> \<not> truthy (JDict [])
   \<and> fst (extract_data env_not_found (emit (Call Extract) (start_world tuesday_10h [])))
       = Inr JNull
   \<and> fst (extract_data env_empty_document (emit (Call Extract) (start_world tuesday_10h [])))
       = Inr (JDict [])
   \<and> pipeline minus_three env_not_found (start_world tuesday_10h [])
       = (Inr (), (start_world tuesday_10h [])\<lparr>clock := tuesday_10h + 250000,
            trace := [Call Extract, Log ERROR (Api_error 404 ''Not Found''),
                      Log ERROR No_data_extracted]\<rparr>)
   \<and> pipeline minus_three env_empty_document (start_world tuesday_10h [])
       = (Inr (), (start_world tuesday_10h [])\<lparr>clock := tuesday_10h + 250000,
            trace := [Call Extract, Log ERROR No_data_extracted]\<rparr>)"
proof -
  let ?s = "start_world tuesday_10h []"
  note a = falsy_document_treated_as_fetch_failure
             [of env_not_found "emit (Call Extract) ?s" ?s minus_three]
  note b = falsy_document_treated_as_fetch_failure
             [of env_empty_document "emit (Call Extract) ?s" ?s minus_three]
  have n: "\<not> truthy JNull" "\<not> truthy (JDict [])"
    by simp_all
  from a have "fst (extract_data env_not_found (emit (Call Extract) ?s)) = Inr JNull"
    by (simp add: env_defs)
  moreover from a extract_start(4) n(1)
  have "pipeline minus_three env_not_found ?s
          = (Inr (), logger_error No_data_extracted
               (?s\<lparr>clock := tuesday_10h + 250000,
                   trace := [Call Extract, Log ERROR (Api_error 404 ''Not Found'')]\<rparr>))"
    by blast
  moreover from b extract_start(5) n(2)
  have "pipeline minus_three env_empty_document ?s
          = (Inr (), logger_error No_data_extracted
               (?s\<lparr>clock := tuesday_10h + 250000, trace := [Call Extract]\<rparr>))"
    by blast
  moreover have "logger_error m (w\<lparr>clock := c, trace := t\<rparr>)
                   = w\<lparr>clock := c, trace := t @ [Log ERROR m]\<rparr>" for m w c t
    by (simp add: logger_error_def emit_def)
  ultimately show ?thesis
    by (simp add: extract_start)
qed

text \<open>
  Claim C7, as it is written, fails: the run returns the same value to its caller when
  the commit raised as when the record was stored, and ends with the same log line.
\<close>

theorem pipeline_outcome_counterexample:
  "commit_error env_commit_fails = Some (DatabaseError ''connection lost'')
   \<and> commit_error env_ok = None
   \<and> rows (snd (pipeline minus_three env_ok (start_world tuesday_10h []))) = [quote_d]
   \<and> rows (snd (pipeline minus_three env_commit_fails (start_world tuesday_10h []))) = []
   \<and> fst (pipeline minus_three env_commit_fails (start_world tuesday_10h []))
       = fst (pipeline minus_three env_ok (start_world tuesday_10h []))
   \<and> last (trace (snd (pipeline minus_three env_commit_fails (start_world tuesday_10h []))))
       = Log INFO Pipeline_completed"
  by (simp add: pipeline_runs start_world_fields env_fields)

text \<open>
  Claim C7, amended. A run that reaches Load returns \<open>None\<close> both when Load stored the
  record and when \<open>add\<close> or \<open>commit\<close> raised and the rollback went through; in both
  cases its last log line is the line of success. What tells the two apart is the log line
  of Load (saved, or the error with its exception) and the table. Only an exception of the
  rollback itself reaches the caller.
\<close>

theorem pipeline_returns_nothing_about_load:
  assumes "extract_data env (emit (Call Extract) s) = (Inr data, s1)" and "truthy data"
    and "transform_data zi (clock s1) data = Inr q" and "pipeline zi env s = (r, s')"
  shows "(add_error env = None \<and> commit_error env = None \<longrightarrow>
            r = Inr () \<and> rows s' = rows s @ [q]
          \<and> Log INFO (Data_saved (timestamp_criacao q)) \<in> set (events_since s s')
          \<and> last (trace s') = Log INFO Pipeline_completed)
       \<and> (\<forall>e. (add_error env = Some e \<or> (add_error env = None \<and> commit_error env = Some e))
               \<and> rollback_error env = None \<longrightarrow>
            r = Inr () \<and> rows s' = rows s
          \<and> Log ERROR (Save_error e) \<in> set (events_since s s')
          \<and> last (trace s') = Log INFO Pipeline_completed)
       \<and> (\<forall>e e'. (add_error env = Some e \<or> (add_error env = None \<and> commit_error env = Some e))
               \<and> rollback_error env = Some e' \<longrightarrow>
            r = Inl e' \<and> rows s' = rows s)"
proof -
  define s2 where "s2 = emit (Call Load) (emit (Call Transform) s1)"
  from pipeline_start[OF assms(1)] obtain ls where
    ls: "trace s1 = trace s @ Call Extract # ls" and rw: "rows s1 = rows s"
    by blast
  have t2: "trace s2 = trace s @ Call Extract # ls @ [Call Transform, Call Load]"
    and r2: "rows s2 = rows s"
    by (simp_all add: s2_def emit_fields ls rw)
  obtain r3 s3 where sv: "save_data_postgres env q s2 = (r3, s3)"
    by (cases "save_data_postgres env q s2")
  note p = pipeline_reaches_load[OF assms(1,2,3) sv[unfolded s2_def], unfolded assms(4)]
  have a: "r = Inr () \<and> rows s' = rows s @ [q]
          \<and> Log INFO (Data_saved (timestamp_criacao q)) \<in> set (events_since s s')
          \<and> last (trace s') = Log INFO Pipeline_completed"
    if "add_error env = None" "commit_error env = None"
    using p sv save_ok[OF that, of q s2] t2 r2
    by (auto simp: events_since_def logger_info_def emit_fields)
  have b: "r = Inr () \<and> rows s' = rows s
          \<and> Log ERROR (Save_error e) \<in> set (events_since s s')
          \<and> last (trace s') = Log INFO Pipeline_completed"
    if "add_error env = Some e \<or> (add_error env = None \<and> commit_error env = Some e)"
      "rollback_error env = None" for e
    using that(1)
  proof
    assume "add_error env = Some e"
    from p sv save_add_fails[OF this, of q s2] t2 r2 that(2) show ?thesis
      by (auto simp: events_since_def logger_info_def emit_fields)
  next
    assume "add_error env = None \<and> commit_error env = Some e"
    then have "add_error env = None" "commit_error env = Some e" by simp_all
    from p sv save_commit_fails[OF this, of q s2] t2 r2 that(2) show ?thesis
      by (auto simp: events_since_def logger_info_def emit_fields)
  qed
  have c: "r = Inl e' \<and> rows s' = rows s"
    if "add_error env = Some e \<or> (add_error env = None \<and> commit_error env = Some e)"
      "rollback_error env = Some e'" for e e'
    using that(1)
  proof
    assume "add_error env = Some e"
    from p sv save_add_fails[OF this, of q s2] r2 that(2) show ?thesis
      by auto
  next
    assume "add_error env = None \<and> commit_error env = Some e"
    then have "add_error env = None" "commit_error env = Some e" by simp_all
    from p sv save_commit_fails[OF this, of q s2] r2 that(2) show ?thesis
      by auto
  qed
  from a b c show ?thesis by blast
qed

theorem pipeline_returns_nothing_about_load_witness:
  "fst (pipeline minus_three env_ok (start_world tuesday_10h [])) = Inr ()
   \<and> rows (snd (pipeline minus_three env_ok (start_world tuesday_10h []))) = [quote_d]
   \<and> fst (pipeline minus_three env_commit_fails (start_world tuesday_10h [])) = Inr ()
   \<and> rows (snd (pipeline minus_three env_commit_fails (start_world tuesday_10h []))) = []
   \<and> Log ERROR (Save_error (DatabaseError ''connection lost''))
       \<in> set (trace (snd (pipeline minus_three env_commit_fails (start_world tuesday_10h []))))
   \<and> fst (pipeline minus_three (env_commit_fails\<lparr>rollback_error := Some ConnectionError\<rparr>)
             (start_world tuesday_10h [])) = Inl ConnectionError"
proof -
  let ?s = "start_world tuesday_10h []"
  let ?s1 = "?s\<lparr>clock := tuesday_10h + 250000, trace := [Call Extract]\<rparr>"
  let ?env = "env_commit_fails\<lparr>rollback_error := Some ConnectionError\<rparr>"
  have tr: "transform_data minus_three (clock ?s1) scenario_d = Inr quote_d"
    by (simp add: transform_scenario_d_tuesday)
  note a = pipeline_returns_nothing_about_load
             [OF extract_start(1) scenario_d_truthy tr pipeline_runs(1)]
  note b = pipeline_returns_nothing_about_load
             [OF extract_start(2) scenario_d_truthy tr pipeline_runs(2)]
  have ex: "extract_data ?env (emit (Call Extract) ?s) = (Inr scenario_d, ?s1)"
    using extract_start(2) by (simp add: extract_data_def env_defs)
  obtain r s' where p: "pipeline minus_three ?env ?s = (r, s')"
    by (cases "pipeline minus_three ?env ?s")
  note c = pipeline_returns_nothing_about_load[OF ex scenario_d_truthy tr p]
  from c have "r = Inl ConnectionError"
    by (simp add: env_fields)
  with a b p show ?thesis
    by (simp add: pipeline_runs env_fields events_since_def start_world_fields)
qed

section \<open>The loop: claims\<close>

lemma stop_event_deliver: "stop_event s \<Longrightarrow> stop_event (deliver s)"
  by (simp add: deliver_def handlers_fields)

lemma stop_event_advance: "stop_event s \<Longrightarrow> stop_event (advance d s)"
  by (simp add: advance_fields)

lemma event_wait_set: "stop_event s \<Longrightarrow> event_wait timeout s = s"
  by (simp add: event_wait_def)

lemma stop_event_time_sleep: "stop_event s \<Longrightarrow> stop_event (time_sleep secs s)"
  by (simp add: time_sleep_def advance_fields)

lemma stop_event_pipeline:
  assumes "stop_event s"
  shows "stop_event (snd (pipeline zi env s))"
proof -
  obtain x s1 where e: "extract_data env (emit (Call Extract) s) = (x, s1)"
    by (cases "extract_data env (emit (Call Extract) s)")
  from extract_data_effect(6)[OF e] assms have s1: "stop_event s1"
    by (simp add: emit_fields)
  show ?thesis
  proof (cases x)
    case (Inl err)
    with e s1 show ?thesis by (simp add: pipeline_extract_raises)
  next
    case (Inr data)
    show ?thesis
    proof (cases "truthy data")
      case False
      with e Inr s1 show ?thesis
        by (simp add: pipeline_no_data logger_error_def emit_fields)
    next
      case True
      show ?thesis
      proof (cases "transform_data zi (clock s1) data")
        case (Inl err)
        with e Inr True s1 show ?thesis
          by (simp add: pipeline_transform_raises emit_fields)
      next
        case q: (Inr q)
        obtain r2 s2 where sv:
          "save_data_postgres env q (emit (Call Load) (emit (Call Transform) s1)) = (r2, s2)"
          by (cases "save_data_postgres env q (emit (Call Load) (emit (Call Transform) s1))")
        from save_data_postgres_effect(3)[OF sv] s1 have "stop_event s2"
          by (simp add: emit_fields)
        with pipeline_reaches_load[OF e[unfolded Inr] True q sv] show ?thesis
          by (cases r2) (simp_all add: logger_info_def emit_fields)
      qed
    qed
  qed
qed

lemma stop_event_loop_body:
  assumes "stop_event s"
  shows "stop_event (snd (loop_body zi envs s))"
proof -
  have p: "stop_event (snd (pipeline zi (envs (runs s)) (s\<lparr>runs := runs s + 1\<rparr>)))"
    using assms by (intro stop_event_pipeline) simp
  show ?thesis
    using assms p
    by (auto simp: loop_body_def Let_def logger_info_def logger_error_def emit_fields
          event_wait_set stop_event_time_sleep
          split: sum.splits prod.splits)
qed

lemma loop_pipeline_stopped:
  "stop_event s \<Longrightarrow> loop_pipeline zi envs s = Some (Inr (), logger_info Execution_ended s)"
  by (subst loop_pipeline.simps) simp

lemma loop_pipeline_last_turn:
  assumes "\<not> stop_event s" "loop_body zi envs s = (Inr u, s1)" "stop_event s1"
  shows "loop_pipeline zi envs s = Some (Inr (), logger_info Execution_ended s1)"
  using assms by (subst loop_pipeline.simps) (simp add: loop_pipeline_stopped)

lemma loop_pipeline_raises:
  assumes "\<not> stop_event s" "loop_body zi envs s = (Inl e, s1)"
  shows "loop_pipeline zi envs s = Some (Inl e, s1)"
  using assms by (subst loop_pipeline.simps) simp

lemma event_wait_signal:
  assumes "\<not> stop_event s" and "\<forall>t \<in> set (signals s). clock s < t"
    and "earliest (filter (\<lambda>t. t \<le> clock s + timeout * 1000000) (signals s)) = Some t0"
  shows "clock (event_wait timeout s) = t0" and "stop_event (event_wait timeout s)"
    and "t0 \<in> set (signals s)" and "t0 \<le> clock s + timeout * 1000000"
proof -
  have mem: "earliest ts = Some x \<Longrightarrow> x \<in> set ts" for ts :: "int list" and x
  proof (induction ts arbitrary: x)
    case Nil
    then show ?case by simp
  next
    case (Cons t ts)
    show ?case
    proof (cases "earliest ts")
      case None
      with Cons.prems show ?thesis by simp
    next
      case (Some u)
      with Cons.IH[of u] Cons.prems show ?thesis by (auto simp: min_def split: if_splits)
    qed
  qed
  from mem[OF assms(3)] show m: "t0 \<in> set (signals s)" and le: "t0 \<le> clock s + timeout * 1000000"
    by simp_all
  with assms(2) have "clock s < t0" by blast
  then have mx: "max 0 (t0 - clock s) = t0 - clock s" by simp
  show "clock (event_wait timeout s) = t0"
    using assms(1,3) by (simp add: event_wait_def mx advance_fields)
  show "stop_event (event_wait timeout s)"
    using assms(1,3) m by (auto simp: event_wait_def mx advance_fields)
qed

lemma event_wait_timeout:
  assumes "\<not> stop_event s" and "\<forall>t \<in> set (signals s). clock s + timeout * 1000000 < t"
  shows "event_wait timeout s = s\<lparr>clock := clock s + timeout * 1000000\<rparr>"
proof -
  have f: "filter (\<lambda>t. t \<le> clock s + timeout * 1000000) (signals s) = []"
    using assms(2) by (auto simp: filter_empty_conv)
  have g: "filter (\<lambda>t. \<not> t \<le> clock s + timeout * 1000000) (signals s) = signals s"
    using assms(2) by (auto simp: filter_id_conv)
  show ?thesis
    using assms(1) by (simp add: event_wait_def f g advance_def deliver_def)
qed

lemma time_sleep_full: "clock (time_sleep secs s) = clock s + secs * 1000000"
  by (simp add: time_sleep_def advance_fields)

lemma tuesday_within:
  "is_within_allowed_time \<lparr>ordinal = 738838, hour = 10, minute = 0, second = 0,
                           microsecond = 0, tzinfo = Sao_Paulo\<rparr>"
  by (simp add: is_within_allowed_time_def dt_defs)

lemma loop_body_unreachable:
  "loop_body minus_three (always env_unreachable) sigterm_after_5s
     = (Inr (), \<lparr>stop_event = True, clock = tuesday_10h + 30250000, signals = [],
                 trace = [Call Extract, Log ERROR (Unexpected_error ConnectionError),
                          Log INFO Sigterm_received, Log INFO Pipeline_finished],
                 rows = [], pending = [], sessions = 0, runs = 1\<rparr>)"
proof -
  have p: "pipeline minus_three env_unreachable (sigterm_after_5s\<lparr>runs := Suc (runs sigterm_after_5s)\<rparr>)
             = (Inl ConnectionError,
                \<lparr>stop_event = False, clock = tuesday_10h + 250000,
                 signals = [tuesday_10h + 5250000], trace = [Call Extract],
                 rows = [], pending = [], sessions = 0, runs = 1\<rparr>)"
    by (simp add: pipeline_def extract_data_def env_defs sigterm_after_5s_def start_world_def
          emit_def advance_def deliver_def Let_def)
  have c: "clock sigterm_after_5s = tuesday_10h"
    by (simp add: sigterm_after_5s_def start_world_fields)
  show ?thesis
    unfolding loop_body_def c now_tuesday(2)
    by (simp add: always_def tuesday_within p logger_error_def logger_info_def emit_def time_sleep_def
          advance_def deliver_def handle_sigterm_def)
qed

lemma loop_body_ok:
  "loop_body minus_three (always env_ok) sigterm_after_5s
     = (Inr (), \<lparr>stop_event = True, clock = tuesday_10h + 5250000, signals = [],
                 trace = [Call Extract, Call Transform, Call Load, Session_open 0,
                          Session_add 0 quote_d, Session_commit 0,
                          Log INFO (Data_saved (timestamp_criacao quote_d)), Session_close 0,
                          Log INFO Pipeline_completed, Log INFO Waiting_30_seconds,
                          Log INFO Sigterm_received, Log INFO Pipeline_finished],
                 rows = [quote_d], pending = [], sessions = 1, runs = 1\<rparr>)"
proof -
  have e: "extract_data env_ok (emit (Call Extract) (sigterm_after_5s\<lparr>runs := Suc (runs sigterm_after_5s)\<rparr>))
             = (Inr scenario_d,
                \<lparr>stop_event = False, clock = tuesday_10h + 250000,
                 signals = [tuesday_10h + 5250000], trace = [Call Extract],
                 rows = [], pending = [], sessions = 0, runs = 1\<rparr>)"
    by (simp add: extract_data_def env_defs sigterm_after_5s_def start_world_def
          emit_def advance_def deliver_def Let_def)
  have p: "pipeline minus_three env_ok (sigterm_after_5s\<lparr>runs := Suc (runs sigterm_after_5s)\<rparr>)
             = (Inr (),
                \<lparr>stop_event = False, clock = tuesday_10h + 250000,
                 signals = [tuesday_10h + 5250000],
                 trace = [Call Extract, Call Transform, Call Load, Session_open 0,
                          Session_add 0 quote_d, Session_commit 0,
                          Log INFO (Data_saved (timestamp_criacao quote_d)), Session_close 0,
                          Log INFO Pipeline_completed],
                 rows = [quote_d], pending = [], sessions = 1, runs = 1\<rparr>)"
    unfolding pipeline_def e
    by (simp add: scenario_d_truthy transform_scenario_d_tuesday save_defs env_fields)
  have c: "clock sigterm_after_5s = tuesday_10h"
    by (simp add: sigterm_after_5s_def start_world_fields)
  show ?thesis
    unfolding loop_body_def c now_tuesday(2)
    by (simp add: always_def tuesday_within p logger_error_def logger_info_def emit_def event_wait_def
          advance_def deliver_def handle_sigterm_def)
qed

lemma loop_body_saturday:
  "loop_body minus_three envs (start_world saturday_10h [saturday_10h + 5000000])
     = (Inr (), \<lparr>stop_event = True, clock = saturday_10h + 5000000, signals = [],
                 trace = [Log INFO (Outside_allowed_time 22 0 0), Log INFO Sigterm_received],
                 rows = [], pending = [], sessions = 0, runs = 0\<rparr>)"
proof -
  have n: "datetime_now minus_three Sao_Paulo saturday_10h
             = Inr \<lparr>ordinal = 738842, hour = 10, minute = 0, second = 0, microsecond = 0,
                    tzinfo = Sao_Paulo\<rparr>"
    by (simp add: clock_defs saturday_10h_def tuesday_10h_def dt_defs)
  have w: "\<not> is_within_allowed_time \<lparr>ordinal = 738842, hour = 10, minute = 0, second = 0,
                                       microsecond = 0, tzinfo = Sao_Paulo\<rparr>"
    by (simp add: is_within_allowed_time_def dt_defs)
  have t: "time_until_next_start \<lparr>ordinal = 738842, hour = 10, minute = 0, second = 0,
                                    microsecond = 0, tzinfo = Sao_Paulo\<rparr>
             = Inr \<lparr>days = 1, seconds = 79200, microseconds = 0\<rparr>"
    by (simp add: time_until_next_start_def dt_defs)
  show ?thesis
    unfolding loop_body_def
    by (simp add: start_world_fields n w t Let_def)
       (simp add: start_world_def logger_info_def emit_def event_wait_def advance_def
          deliver_def handle_sigterm_def)
qed

lemma loop_pipeline_returns_stopped:
  assumes "loop_pipeline zi envs s = Some y"
  shows "(\<forall>e. fst y \<noteq> Inl e) \<longrightarrow> stop_event (snd y)"
proof (rule loop_pipeline.raw_induct
         [where P = "\<lambda>zi envs s y. (\<forall>e. fst y \<noteq> Inl e) \<longrightarrow> stop_event (snd y)", OF _ assms])
  fix f :: "zoneinfo \<Rightarrow> (nat \<Rightarrow> run_env) \<Rightarrow> world \<Rightarrow> ((error + unit) \<times> world) option"
    and zi envs s y
  assume ih: "\<And>zi envs s y. f zi envs s = Some y \<Longrightarrow> (\<forall>e. fst y \<noteq> Inl e) \<longrightarrow> stop_event (snd y)"
    and eq: "(if stop_event s then Some (Inr (), logger_info Execution_ended s)
              else case loop_body zi envs s of
                     (Inl e, s1) \<Rightarrow> Some (Inl e, s1)
                   | (Inr x, s1) \<Rightarrow> f zi envs s1) = Some y"
  show "(\<forall>e. fst y \<noteq> Inl e) \<longrightarrow> stop_event (snd y)"
  proof (cases "stop_event s")
    case True
    with eq show ?thesis by (auto simp: logger_info_def emit_fields)
  next
    case False
    obtain r s1 where b: "loop_body zi envs s = (r, s1)"
      by (cases "loop_body zi envs s")
    show ?thesis
    proof (cases r)
      case (Inl e)
      with eq False b show ?thesis by auto
    next
      case (Inr u)
      with eq False b have "f zi envs s1 = Some y" by simp
      then show ?thesis by (rule ih)
    qed
  qed
qed

text \<open>
  Claim C1 asks that a cancellation set during either wait of the loop ends the wait at
  once. The code does so where it waits with \<open>stop_event.wait\<close> (the poll outside the
  window and the cooldown after a run that returned), and not in the cooldown after a run
  that raised, which is \<open>time.sleep(30)\<close>. With SIGTERM delivered 5.25 seconds after the
  start: when the run raises, the loop stops 30.25 seconds after the start, having slept the
  whole interval; when the run returns, it stops at 5.25 seconds; outside the window, with
  SIGTERM after 5 seconds, it stops at 5 seconds. In all three no further run is started.
\<close>

theorem loop_pipeline_sleep_ignores_cancellation:
  "loop_pipeline minus_three (always env_unreachable) sigterm_after_5s
     = Some (Inr (), \<lparr>stop_event = True, clock = tuesday_10h + 30250000, signals = [],
                      trace = [Call Extract, Log ERROR (Unexpected_error ConnectionError),
                               Log INFO Sigterm_received, Log INFO Pipeline_finished,
                               Log INFO Execution_ended],
                      rows = [], pending = [], sessions = 0, runs = 1\<rparr>)
   \<and> loop_pipeline minus_three (always env_ok) sigterm_after_5s
     = Some (Inr (), \<lparr>stop_event = True, clock = tuesday_10h + 5250000, signals = [],
                      trace = [Call Extract, Call Transform, Call Load, Session_open 0,
                               Session_add 0 quote_d, Session_commit 0,
                               Log INFO (Data_saved (timestamp_criacao quote_d)),
                               Session_close 0, Log INFO Pipeline_completed,
                               Log INFO Waiting_30_seconds, Log INFO Sigterm_received,
                               Log INFO Pipeline_finished, Log INFO Execution_ended],
                      rows = [quote_d], pending = [], sessions = 1, runs = 1\<rparr>)
   \<and> loop_pipeline minus_three (always env_ok) (start_world saturday_10h [saturday_10h + 5000000])
     = Some (Inr (), \<lparr>stop_event = True, clock = saturday_10h + 5000000, signals = [],
                      trace = [Log INFO (Outside_allowed_time 22 0 0),
                               Log INFO Sigterm_received, Log INFO Execution_ended],
                      rows = [], pending = [], sessions = 0, runs = 0\<rparr>)"
proof -
  have a: "\<not> stop_event sigterm_after_5s"
    "\<not> stop_event (start_world saturday_10h [saturday_10h + 5000000])"
    by (simp_all add: sigterm_after_5s_def start_world_fields)
  show ?thesis
    using loop_pipeline_last_turn[OF a(1) loop_body_unreachable]
      loop_pipeline_last_turn[OF a(1) loop_body_ok]
      loop_pipeline_last_turn[OF a(2) loop_body_saturday, of "always env_ok"]
    by (simp add: logger_info_def emit_def)
qed

text \<open>
  Claim C2. Once the flag is set, no operation of the process clears it: the handler, the
  delivery of signals, both waits, Extract, Load, a whole run and a whole turn of the loop
  leave it set. A loop that finds the flag set at its condition returns at once, writes its
  last log line and starts no run; a turn that ends with the flag set (observed in a wait
  or a sleep) is the last turn. The loop returns normally only with the flag set.
\<close>

theorem stop_event_never_cleared:
  "(stop_event s \<longrightarrow>
        stop_event (handle_sigterm s) \<and> stop_event (deliver s) \<and> stop_event (advance d s)
      \<and> stop_event (event_wait timeout s) \<and> stop_event (time_sleep timeout s)
      \<and> stop_event (snd (extract_data env s)) \<and> stop_event (snd (save_data_postgres env q s))
      \<and> stop_event (snd (pipeline zi env s)) \<and> stop_event (snd (loop_body zi envs s))
      \<and> loop_pipeline zi envs s = Some (Inr (), logger_info Execution_ended s)
      \<and> stop_event (logger_info Execution_ended s)
      \<and> runs (logger_info Execution_ended s) = runs s
      \<and> events_since s (logger_info Execution_ended s) = [Log INFO Execution_ended])
   \<and> (\<forall>s1 u. \<not> stop_event s \<and> loop_body zi envs s = (Inr u, s1) \<and> stop_event s1 \<longrightarrow>
         loop_pipeline zi envs s = Some (Inr (), logger_info Execution_ended s1)
       \<and> runs (logger_info Execution_ended s1) = runs s1)
   \<and> (\<forall>u s'. loop_pipeline zi envs s = Some (Inr u, s') \<longrightarrow> stop_event s')
   \<and> stop_event (handle_sigterm s)"
proof (intro conjI impI allI)
  assume s: "stop_event s"
  show "stop_event (handle_sigterm s)"
    by (simp add: handle_sigterm_def)
  show "stop_event (deliver s)" using s by (rule stop_event_deliver)
  show "stop_event (advance d s)" using s by (rule stop_event_advance)
  show "stop_event (event_wait timeout s)" using s by (simp add: event_wait_set)
  show "stop_event (time_sleep timeout s)" using s by (rule stop_event_time_sleep)
  show "stop_event (snd (extract_data env s))"
    using extract_data_effect(6)[of env s "fst (extract_data env s)" "snd (extract_data env s)"] s
    by simp
  show "stop_event (snd (save_data_postgres env q s))"
    using save_data_postgres_effect(3)
            [of env q s "fst (save_data_postgres env q s)" "snd (save_data_postgres env q s)"] s
    by simp
  show "stop_event (snd (pipeline zi env s))" using s by (rule stop_event_pipeline)
  show "stop_event (snd (loop_body zi envs s))" using s by (rule stop_event_loop_body)
  show "loop_pipeline zi envs s = Some (Inr (), logger_info Execution_ended s)"
    using s by (rule loop_pipeline_stopped)
  show "stop_event (logger_info Execution_ended s)"
    using s by (simp add: logger_info_def emit_fields)
  show "runs (logger_info Execution_ended s) = runs s"
    by (simp add: logger_info_def emit_fields)
  show "events_since s (logger_info Execution_ended s) = [Log INFO Execution_ended]"
    by (simp add: events_since_def logger_info_def emit_fields)
next
  fix s1 u
  assume a: "\<not> stop_event s \<and> loop_body zi envs s = (Inr u, s1) \<and> stop_event s1"
  then show "loop_pipeline zi envs s = Some (Inr (), logger_info Execution_ended s1)"
    by (intro loop_pipeline_last_turn) simp_all
  show "runs (logger_info Execution_ended s1) = runs s1"
    by (simp add: logger_info_def emit_fields)
next
  fix u s'
  assume "loop_pipeline zi envs s = Some (Inr u, s')"
  from loop_pipeline_returns_stopped[OF this] show "stop_event s'"
    by simp
next
  show "stop_event (handle_sigterm s)"
    by (simp add: handle_sigterm_def)
qed

theorem stop_event_never_cleared_witness:
  "stop_event (handle_sigterm (start_world tuesday_10h []))
   \<and> loop_pipeline minus_three (always env_ok) (handle_sigterm (start_world tuesday_10h []))
       = Some (Inr (), \<lparr>stop_event = True, clock = tuesday_10h, signals = [],
                        trace = [Log INFO Sigterm_received, Log INFO Execution_ended],
                        rows = [], pending = [], sessions = 0, runs = 0\<rparr>)
   \<and> \<not> stop_event sigterm_after_5s
   \<and> stop_event (snd (loop_body minus_three (always env_unreachable) sigterm_after_5s))
   \<and> runs (snd (loop_body minus_three (always env_unreachable) sigterm_after_5s)) = 1
   \<and> (\<exists>s'. loop_pipeline minus_three (always env_unreachable) sigterm_after_5s
               = Some (Inr (), s') \<and> stop_event s' \<and> runs s' = 1)"
proof -
  let ?h = "handle_sigterm (start_world tuesday_10h [])"
  note a = stop_event_never_cleared[of ?h 0 0 env_ok quote_d minus_three "always env_ok"]
  note b = stop_event_never_cleared
             [of sigterm_after_5s 0 0 env_ok quote_d minus_three "always env_unreachable"]
  have h: "stop_event ?h"
    by (simp add: handle_sigterm_def)
  with a have 1: "loop_pipeline minus_three (always env_ok) ?h
                    = Some (Inr (), logger_info Execution_ended ?h)"
    by blast
  have n: "\<not> stop_event sigterm_after_5s"
    by (simp add: sigterm_after_5s_def start_world_fields)
  let ?s1 = "snd (loop_body minus_three (always env_unreachable) sigterm_after_5s)"
  have s1: "stop_event ?s1" "runs ?s1 = 1"
    by (simp_all add: loop_body_unreachable)
  have lb: "loop_body minus_three (always env_unreachable) sigterm_after_5s = (Inr (), ?s1)"
    by (simp add: loop_body_unreachable)
  from b n lb s1(1)
  have 2: "loop_pipeline minus_three (always env_unreachable) sigterm_after_5s
             = Some (Inr (), logger_info Execution_ended ?s1)"
    by blast
  have 3: "stop_event (logger_info Execution_ended ?s1)" "runs (logger_info Execution_ended ?s1) = 1"
    using s1 by (simp_all add: logger_info_def emit_fields)
  show ?thesis
    using h 1 n s1 2 3
    by (simp add: handle_sigterm_def logger_info_def emit_def start_world_def)
qed

end
